theory Spec2Isabelle
  imports Complex_Main "HOL-Library.Word" "HOL-Library.Log_Nat"
begin

section \<open>The ledger and consensus core of BlockchainApp.tsx\<close>

text \<open>
  The classes \<open>SimpleHash\<close>, \<open>Transaction\<close>, \<open>Block\<close>, \<open>Validator\<close> and
  \<open>CosmosBlockchain\<close> of \<open>src/components/BlockchainApp.tsx\<close>, as HOL functions.

  \<^item> A TypeScript \<open>number\<close> that holds a quantity of tokens, a stake, a random draw or
    a time stamp is a double (type \<open>number\<close> below): every operation rounds as the
    source's does, and the infinities and \<open>NaN\<close> are values. Array lengths, block
    indices and the block counters, which count up from \<open>0\<close> by one, are \<open>nat\<close>.
  \<^item> \<open>string | null\<close> is \<open>string option\<close>.
  \<^item> A method that mutates \<open>this\<close> takes the state and returns the new one. A method that
    can throw returns a pair: the outcome (\<open>Inl\<close> the error, \<open>Inr\<close> the returned value)
    and the state the object is left in, so that what a failed call has already mutated
    stays visible.
  \<^item> \<open>Math.random()\<close> and \<open>Date.now()\<close> are arguments of the functions that call them.
  \<^item> The conversions of the language that build the hashed text out of numbers and
    objects (template literals, \<open>JSON.stringify\<close>) are the fields of a \<open>js_runtime\<close>
    argument.
\<close>

subsection \<open>Numbers\<close>

text \<open>
  A \<open>number\<close> of the program is an IEEE 754 double. \<open>Fin x\<close> is the finite double of
  value \<open>x\<close>; the doubles are the \<open>Fin x\<close> with \<open>rnd x = Fin x\<close>, the two infinities
  and \<open>NaN\<close>. The two zeros are one value: the class has no operation that tells them
  apart (no division; comparisons, \<open>||\<close> and the conversions to text treat them alike).

  \<open>rnd\<close> rounds a rational to the nearest double, ties to the even significand:
  \<open>ilog2 a\<close> is the binary exponent of \<open>a\<close> (\<open>2 powi e \<le> a < 2 powi (e + 1)\<close>), the
  spacing of the doubles around \<open>a\<close> is \<open>2 powi (e - 52)\<close> (exponents below \<open>- 1022\<close>
  are subnormal and share the spacing \<open>2 powi (- 1074)\<close>), and a result of magnitude
  \<open>2 powi 1024\<close> or more overflows to an infinity.
\<close>

datatype number = Fin rat | PInf | NInf | NaN

definition roundHalfEven :: "rat \<Rightarrow> int" where
  "roundHalfEven x =
     (let f = \<lfloor>x\<rfloor>; d = x - of_int f
      in if d < 1 / 2 then f else if 1 / 2 < d then f + 1 else if even f then f else f + 1)"

definition ilog2 :: "rat \<Rightarrow> int" where
  "ilog2 a =
     (let k = bitlen (fst (quotient_of a)) - bitlen (snd (quotient_of a))
      in if 2 powi k \<le> a then k else k - 1)"

definition rnd :: "rat \<Rightarrow> number" where
  "rnd x =
     (if x = 0 then Fin 0
      else
        (let a = \<bar>x\<bar>;
             q = 2 powi (max (ilog2 a) (- 1022) - 52);
             y = of_int (roundHalfEven (a / q)) * q
         in if 2 powi 1024 \<le> y then (if 0 < x then PInf else NInf)
            else Fin (if 0 < x then y else - y)))"

text \<open>
  The magnitude that \<open>rnd\<close> computes for a positive rational, and the values of type
  \<open>number\<close> that are doubles.
\<close>

definition rounded :: "rat \<Rightarrow> rat" where
  "rounded a =
     of_int (roundHalfEven (a / 2 powi (max (ilog2 a) (- 1022) - 52)))
       * 2 powi (max (ilog2 a) (- 1022) - 52)"

definition isDouble :: "number \<Rightarrow> bool" where
  "isDouble x = (case x of Fin v \<Rightarrow> rnd v = Fin v | PInf \<Rightarrow> True | NInf \<Rightarrow> True | NaN \<Rightarrow> True)"

text \<open>The operators \<open>+\<close>, \<open>-\<close>, \<open>*\<close>, \<open><\<close>, \<open><=\<close> of the language on doubles.\<close>

fun fneg :: "number \<Rightarrow> number" where
  "fneg (Fin x) = Fin (- x)"
| "fneg PInf = NInf"
| "fneg NInf = PInf"
| "fneg NaN = NaN"

fun fadd :: "number \<Rightarrow> number \<Rightarrow> number" where
  "fadd (Fin x) (Fin y) = rnd (x + y)"
| "fadd NaN y = NaN"
| "fadd x NaN = NaN"
| "fadd PInf NInf = NaN"
| "fadd NInf PInf = NaN"
| "fadd PInf y = PInf"
| "fadd NInf y = NInf"
| "fadd (Fin x) y = y"

definition fsub :: "number \<Rightarrow> number \<Rightarrow> number" where
  "fsub x y = fadd x (fneg y)"

fun fmul :: "number \<Rightarrow> number \<Rightarrow> number" where
  "fmul (Fin x) (Fin y) = rnd (x * y)"
| "fmul NaN y = NaN"
| "fmul x NaN = NaN"
| "fmul (Fin x) y = (if x = 0 then NaN else if 0 < x then y else fneg y)"
| "fmul x (Fin y) = (if y = 0 then NaN else if 0 < y then x else fneg x)"
| "fmul x y = (if x = y then PInf else NInf)"

fun flt :: "number \<Rightarrow> number \<Rightarrow> bool" where
  "flt (Fin x) (Fin y) = (x < y)"
| "flt NaN y = False"
| "flt x NaN = False"
| "flt x NInf = False"
| "flt PInf y = False"
| "flt x y = True"

fun fle :: "number \<Rightarrow> number \<Rightarrow> bool" where
  "fle (Fin x) (Fin y) = (x \<le> y)"
| "fle NaN y = False"
| "fle x NaN = False"
| "fle NInf y = True"
| "fle x PInf = True"
| "fle x y = False"

text \<open>\<open>x || 0\<close>: \<open>NaN\<close> and zero are falsy.\<close>

definition orZero :: "number \<Rightarrow> number" where
  "orZero x = (if x = NaN \<or> x = Fin 0 then Fin 0 else x)"

subsection \<open>SimpleHash\<close>

text \<open>
  \<open>hash = ((hash << 5) - hash) + char; hash = hash & hash\<close>: the bitwise operators
  truncate to a signed 32-bit integer, so the loop is arithmetic on \<open>32 word\<close>.
  A \<open>string\<close> is a list of character codes below 256, read by \<open>charCodeAt\<close>.
\<close>

fun hashLoop :: "32 word \<Rightarrow> string \<Rightarrow> 32 word" where
  "hashLoop h [] = h"
| "hashLoop h (c # cs) = hashLoop ((push_bit 5 h - h) + of_char c) cs"

definition hexDigit :: "int \<Rightarrow> char" where
  "hexDigit d = ''0123456789abcdef'' ! nat d"

text \<open>\<open>Number.prototype.toString(16)\<close> on a non-negative integer.\<close>

function toString16 :: "int \<Rightarrow> string" where
  "toString16 n =
     (if n < 16 then [hexDigit n] else toString16 (n div 16) @ [hexDigit (n mod 16)])"
  by pat_completeness auto
termination
  by (relation "measure nat") auto

declare toString16.simps [simp del]

text \<open>
  \<open>SimpleHash.create\<close> on a string (every caller in the file passes a string):
  \<open>Math.abs(hash).toString(16)\<close>.
\<close>

definition SimpleHash_create :: "string \<Rightarrow> string" where
  "SimpleHash_create str = toString16 \<bar>sint (hashLoop 0 str)\<bar>"

subsection \<open>Transaction\<close>

record Transaction =
  fromAddress :: "string option"
  toAddress :: string
  amount :: number
  fee :: number
  timestamp :: number
  hash :: string
  signature :: "string option"

record js_runtime =
  numberToString :: "number \<Rightarrow> string"
  jsonStringify :: "Transaction list \<Rightarrow> string"

text \<open>A template literal renders \<open>null\<close> as the text \<open>null\<close>.\<close>

definition addressToString :: "string option \<Rightarrow> string" where
  "addressToString a = (case a of None \<Rightarrow> ''null'' | Some str \<Rightarrow> str)"

definition calculateHash ::
  "js_runtime \<Rightarrow> string option \<Rightarrow> string \<Rightarrow> number \<Rightarrow> number \<Rightarrow> number \<Rightarrow> string" where
  "calculateHash rt from to a f t =
     SimpleHash_create (addressToString from @ to @ numberToString rt a @ numberToString rt f
       @ numberToString rt t)"

text \<open>The constructor; \<open>now\<close> is the value of \<open>Date.now()\<close>.\<close>

definition Transaction_new ::
  "js_runtime \<Rightarrow> string option \<Rightarrow> string \<Rightarrow> number \<Rightarrow> number \<Rightarrow> number \<Rightarrow> Transaction" where
  "Transaction_new rt from to a f now =
     \<lparr>fromAddress = from, toAddress = to, amount = a, fee = f, timestamp = now,
      hash = calculateHash rt from to a f now, signature = None\<rparr>"

definition signTransaction :: "string \<Rightarrow> Transaction \<Rightarrow> Transaction" where
  "signTransaction privateKey tx =
     (if fromAddress tx = None then tx
      else tx\<lparr>signature := Some (SimpleHash_create (hash tx @ privateKey))\<rparr>)"

definition isValid :: "Transaction \<Rightarrow> bool" where
  "isValid tx = (if fromAddress tx = None then True else signature tx \<noteq> None)"

subsection \<open>Block\<close>

record Block =
  index :: nat
  blockTimestamp :: number
  transactions :: "Transaction list"
  previousHash :: string
  validator :: string
  blockHash :: string

definition calculateBlockHash ::
  "js_runtime \<Rightarrow> nat \<Rightarrow> string \<Rightarrow> number \<Rightarrow> Transaction list \<Rightarrow> string \<Rightarrow> string" where
  "calculateBlockHash rt i prev t txs v =
     SimpleHash_create (numberToString rt (Fin (of_nat i)) @ prev @ numberToString rt t
       @ jsonStringify rt txs @ v)"

definition Block_new ::
  "js_runtime \<Rightarrow> nat \<Rightarrow> Transaction list \<Rightarrow> string \<Rightarrow> string \<Rightarrow> number \<Rightarrow> Block" where
  "Block_new rt i txs prev v now =
     \<lparr>index = i, blockTimestamp = now, transactions = txs, previousHash = prev,
      validator = v, blockHash = calculateBlockHash rt i prev now txs v\<rparr>"

subsection \<open>Validator\<close>

record Validator =
  address :: string
  stake :: number
  isActive :: bool
  missedBlocks :: nat
  totalBlocks :: nat

definition Validator_new :: "string \<Rightarrow> number \<Rightarrow> Validator" where
  "Validator_new a st =
     \<lparr>address = a, stake = st, isActive = True, missedBlocks = 0, totalBlocks = 0\<rparr>"

definition increaseStake :: "number \<Rightarrow> Validator \<Rightarrow> Validator" where
  "increaseStake a v = v\<lparr>stake := fadd (stake v) a\<rparr>"

definition decreaseStake :: "number \<Rightarrow> Validator \<Rightarrow> Validator" where
  "decreaseStake a v = (if fle a (stake v) then v\<lparr>stake := fsub (stake v) a\<rparr> else v)"

subsection \<open>CosmosBlockchain\<close>

text \<open>
  \<open>validators\<close> is a \<open>Map\<close> whose values are enumerated (in insertion order) by
  \<open>selectValidator\<close>: an association list. The key under which a \<open>Validator\<close> object is
  stored stands for the reference to that object. \<open>balances\<close> and \<open>stakingPool\<close> are
  only read and written by key: maps.
\<close>

record CosmosBlockchain =
  chain :: "Block list"
  pendingTransactions :: "Transaction list"
  miningReward :: number
  validators :: "(string \<times> Validator) list"
  balances :: "string \<rightharpoonup> number"
  stakingPool :: "string \<rightharpoonup> (string \<rightharpoonup> number)"
  totalSupply :: number

text \<open>
  The messages of the four \<open>throw new Error(...)\<close> of the class, under the names the
  specification gives them; \<open>TypeError\<close> is the reading of \<open>.hash\<close> on \<open>undefined\<close>
  that \<open>getLatestBlock()\<close> returns on an empty chain.
\<close>

datatype error =
  UnauthorizedTransaction | NoActiveValidators | UnknownValidator | InsufficientBalance
  | TypeError

type_synonym 'a outcome = "(error + 'a) \<times> CosmosBlockchain"

text \<open>\<open>Map.prototype.set\<close>: an existing key keeps its position.\<close>

fun map_set :: "'k \<Rightarrow> 'v \<Rightarrow> ('k \<times> 'v) list \<Rightarrow> ('k \<times> 'v) list" where
  "map_set k v [] = [(k, v)]"
| "map_set k v (e # es) = (if fst e = k then (k, v) # es else e # map_set k v es)"

text \<open>A mutation \<open>f\<close> of the object stored under key \<open>k\<close>.\<close>

definition mutate :: "'k \<Rightarrow> ('v \<Rightarrow> 'v) \<Rightarrow> ('k \<times> 'v) list \<Rightarrow> ('k \<times> 'v) list" where
  "mutate k f es = map (\<lambda>e. if fst e = k then (fst e, f (snd e)) else e) es"

definition createGenesisBlock :: "js_runtime \<Rightarrow> number \<Rightarrow> Block" where
  "createGenesisBlock rt now = Block_new rt 0 [] ''0'' ''genesis'' now"

definition genesisValidators :: "(string \<times> number) list" where
  "genesisValidators =
     [(''validator1'', Fin 1000000), (''validator2'', Fin 800000), (''validator3'', Fin 600000)]"

definition initializeGenesisValidators :: "CosmosBlockchain \<Rightarrow> CosmosBlockchain" where
  "initializeGenesisValidators s0 =
     foldl (\<lambda>s v. s\<lparr>validators := map_set (fst v) (Validator_new (fst v) (snd v)) (validators s),
                     balances := (balances s)(fst v \<mapsto> snd v),
                     totalSupply := fadd (totalSupply s) (snd v)\<rparr>)
       s0 genesisValidators"

text \<open>The constructor; \<open>now\<close> is the \<open>Date.now()\<close> of the genesis block.\<close>

definition CosmosBlockchain_new :: "js_runtime \<Rightarrow> number \<Rightarrow> CosmosBlockchain" where
  "CosmosBlockchain_new rt now =
     initializeGenesisValidators
       \<lparr>chain = [createGenesisBlock rt now], pendingTransactions = [],
        miningReward = Fin 100, validators = [], balances = Map.empty,
        stakingPool = Map.empty, totalSupply = Fin 0\<rparr>"

text \<open>\<open>this.balances.get(address) || 0\<close>: a missing key gives \<open>undefined\<close>, which is falsy.\<close>

definition getBalance :: "CosmosBlockchain \<Rightarrow> string \<Rightarrow> number" where
  "getBalance s a = (case balances s a of None \<Rightarrow> Fin 0 | Some b \<Rightarrow> orZero b)"

definition createTransaction :: "Transaction \<Rightarrow> CosmosBlockchain \<Rightarrow> unit outcome" where
  "createTransaction tx s =
     (if \<not> isValid tx then (Inl UnauthorizedTransaction, s)
      else (Inr (), s\<lparr>pendingTransactions := pendingTransactions s @ [tx]\<rparr>))"

definition activeValidators :: "CosmosBlockchain \<Rightarrow> (string \<times> Validator) list" where
  "activeValidators s =
     filter (\<lambda>e. isActive (snd e) \<and> flt (Fin 0) (stake (snd e))) (validators s)"

text \<open>The \<open>for\<close> loop of \<open>selectValidator\<close>; \<open>None\<close> when it ends without returning.\<close>

fun walk ::
  "number \<Rightarrow> number \<Rightarrow> (string \<times> Validator) list \<Rightarrow> (string \<times> Validator) option" where
  "walk random currentSum [] = None"
| "walk random currentSum (e # es) =
     (let currentSum' = fadd currentSum (stake (snd e))
      in if fle random currentSum' then Some e else walk random currentSum' es)"

text \<open>\<open>r\<close> is the value of \<open>Math.random()\<close>.\<close>

definition selectValidator ::
  "number \<Rightarrow> CosmosBlockchain \<Rightarrow> error + (string \<times> Validator)" where
  "selectValidator r s =
     (case activeValidators s of
        [] \<Rightarrow> Inl NoActiveValidators
      | first # others \<Rightarrow>
          (let totalStake = foldl (\<lambda>sum e. fadd sum (stake (snd e))) (Fin 0) (first # others);
               random = fmul r totalStake
           in case walk random (Fin 0) (first # others) of
                Some e \<Rightarrow> Inr e
              | None \<Rightarrow> Inr first))"

text \<open>\<open>!transaction.fromAddress\<close> holds of \<open>null\<close> and of the empty string.\<close>

definition isTransactionValid :: "CosmosBlockchain \<Rightarrow> Transaction \<Rightarrow> bool" where
  "isTransactionValid s tx =
     (case fromAddress tx of
        None \<Rightarrow> True
      | Some from \<Rightarrow>
          if from = [] then True else fle (fadd (amount tx) (fee tx)) (getBalance s from))"

definition setBalance :: "string \<Rightarrow> number \<Rightarrow> CosmosBlockchain \<Rightarrow> CosmosBlockchain" where
  "setBalance a b s = s\<lparr>balances := (balances s)(a \<mapsto> b)\<rparr>"

text \<open>
  The body of the settlement loop of \<open>minePendingTransactions\<close>, for the validator
  address \<open>va\<close>: three \<open>balances.set\<close> in sequence, each reading the balance the one
  before has written.
\<close>

definition settleTransaction :: "string \<Rightarrow> CosmosBlockchain \<Rightarrow> Transaction \<Rightarrow> CosmosBlockchain" where
  "settleTransaction va s tx =
     (case fromAddress tx of
        Some from \<Rightarrow>
          (let s1 = setBalance from (fsub (fsub (getBalance s from) (amount tx)) (fee tx)) s;
               s2 = setBalance (toAddress tx) (fadd (getBalance s1 (toAddress tx)) (amount tx)) s1
           in setBalance va (fadd (getBalance s2 va) (fee tx)) s2)
      | None \<Rightarrow>
          (let s1 = setBalance (toAddress tx) (fadd (getBalance s (toAddress tx)) (amount tx)) s
           in s1\<lparr>totalSupply := fadd (totalSupply s1) (amount tx)\<rparr>))"

text \<open>The state of the settlement loop after its first \<open>n\<close> iterations over \<open>txs\<close>.\<close>

definition settled :: "string \<Rightarrow> CosmosBlockchain \<Rightarrow> Transaction list \<Rightarrow> nat \<Rightarrow> CosmosBlockchain" where
  "settled va s txs n = foldl (settleTransaction va) s (take n txs)"

text \<open>\<open>this.chain[this.chain.length - 1]\<close>: \<open>undefined\<close> (here \<open>None\<close>) on an empty chain.\<close>

definition getLatestBlock :: "CosmosBlockchain \<Rightarrow> Block option" where
  "getLatestBlock s = (if chain s = [] then None else Some (last (chain s)))"

text \<open>
  \<open>r\<close> is the value of \<open>Math.random()\<close>, \<open>t1\<close> and \<open>t2\<close> the values of \<open>Date.now()\<close>
  in the constructors of the reward transaction and of the block. On an empty chain
  \<open>this.getLatestBlock().hash\<close> throws after the reward has been pushed. The settlement
  loop is the \<open>foldl\<close> of \<open>settleTransaction\<close> over the filtered transactions.
\<close>

definition minePendingTransactions ::
  "js_runtime \<Rightarrow> number \<Rightarrow> number \<Rightarrow> number \<Rightarrow> CosmosBlockchain \<Rightarrow> Block outcome" where
  "minePendingTransactions rt r t1 t2 s =
     (case selectValidator r s of
        Inl e \<Rightarrow> (Inl e, s)
      | Inr (key, v) \<Rightarrow>
          (let rewardTransaction =
                 Transaction_new rt None (address v) (miningReward s) (Fin 0) t1;
               s1 = s\<lparr>pendingTransactions := pendingTransactions s @ [rewardTransaction]\<rparr>;
               validTransactions = filter (isTransactionValid s1) (pendingTransactions s1)
           in case getLatestBlock s1 of
                None \<Rightarrow> (Inl TypeError, s1)
              | Some latest \<Rightarrow>
                (let block = Block_new rt (length (chain s1)) validTransactions
                               (blockHash latest) (address v) t2;
                     s2 = foldl (settleTransaction (address v)) s1 validTransactions
                 in (Inr block,
                     s2\<lparr>chain := chain s2 @ [block],
                        validators := mutate key (\<lambda>w. w\<lparr>totalBlocks := totalBlocks w + 1\<rparr>)
                                        (validators s2),
                        pendingTransactions := []\<rparr>))))"

text \<open>
  \<open>validators.get(validatorAddress)!\<close> is the object under that key; \<open>the\<close> reads the
  staking map that the lines before have made sure exists.
\<close>

definition delegate :: "string \<Rightarrow> string \<Rightarrow> number \<Rightarrow> CosmosBlockchain \<Rightarrow> unit outcome" where
  "delegate delegatorAddress validatorAddress a s =
     (if map_of (validators s) validatorAddress = None then (Inl UnknownValidator, s)
      else if flt (getBalance s delegatorAddress) a then (Inl InsufficientBalance, s)
      else
        (let s1 = setBalance delegatorAddress (fsub (getBalance s delegatorAddress) a) s;
             s2 = (if stakingPool s1 delegatorAddress = None
                   then s1\<lparr>stakingPool := (stakingPool s1)(delegatorAddress \<mapsto> Map.empty)\<rparr>
                   else s1);
             delegatorStaking = the (stakingPool s2 delegatorAddress);
             currentStake =
               (case delegatorStaking validatorAddress of None \<Rightarrow> Fin 0 | Some c \<Rightarrow> orZero c);
             s3 = s2\<lparr>stakingPool := (stakingPool s2)(delegatorAddress \<mapsto>
                        delegatorStaking(validatorAddress \<mapsto> fadd currentStake a))\<rparr>
         in (Inr (), s3\<lparr>validators := mutate validatorAddress (increaseStake a) (validators s3)\<rparr>)))"

definition getStakingInfo :: "CosmosBlockchain \<Rightarrow> string \<Rightarrow> (string \<rightharpoonup> number)" where
  "getStakingInfo s a = (case stakingPool s a of None \<Rightarrow> Map.empty | Some m \<Rightarrow> m)"


subsection \<open>Reachable states\<close>

text \<open>
  The states of a \<open>CosmosBlockchain\<close> object: the constructor, then any calls of
  \<open>createTransaction\<close>, \<open>minePendingTransactions\<close> (\<open>Math.random()\<close> is a finite
  double in \<open>[0, 1)\<close>) and \<open>delegate\<close>, whether they return or throw.
\<close>

inductive reachable :: "js_runtime \<Rightarrow> CosmosBlockchain \<Rightarrow> bool" for rt :: js_runtime where
  reachable_new: "reachable rt (CosmosBlockchain_new rt now)"
| reachable_createTransaction:
    "reachable rt s \<Longrightarrow> reachable rt (snd (createTransaction tx s))"
| reachable_mine:
    "reachable rt s \<Longrightarrow> 0 \<le> r \<Longrightarrow> r < 1
       \<Longrightarrow> reachable rt (snd (minePendingTransactions rt (Fin r) t1 t2 s))"
| reachable_delegate:
    "reachable rt s \<Longrightarrow> reachable rt (snd (delegate d va a s))"

text \<open>The chain starts with the genesis block and every later block is linked to the one before.\<close>

definition chain_inv :: "Block list \<Rightarrow> bool" where
  "chain_inv c \<longleftrightarrow>
     c \<noteq> [] \<and> index (c ! 0) = 0 \<and> previousHash (c ! 0) = ''0'' \<and> transactions (c ! 0) = []
     \<and> validator (c ! 0) = ''genesis''
     \<and> (\<forall>i. 0 < i \<and> i < length c \<longrightarrow>
           previousHash (c ! i) = blockHash (c ! (i - 1)) \<and> index (c ! i) = i)"

subsection \<open>Concrete runs\<close>

text \<open>
  A runtime that renders every number and every transaction list as a fixed text, the
  chain constructed under it at time \<open>0\<close>, and the transactions and states of the runs
  evaluated below. No statement depends on what the runtime renders.
\<close>

definition demo_runtime :: js_runtime where
  "demo_runtime = \<lparr>numberToString = (\<lambda>x. ''0''), jsonStringify = (\<lambda>txs. ''[]'')\<rparr>"

definition genesis0 :: CosmosBlockchain where
  "genesis0 = CosmosBlockchain_new demo_runtime (Fin 0)"

definition overdraft :: Transaction where
  "overdraft = signTransaction ''key''
     (Transaction_new demo_runtime (Some ''validator2'') ''bob'' (Fin 5000000) (Fin 1) (Fin 1))"

definition self_transfer :: Transaction where
  "self_transfer = signTransaction ''key''
     (Transaction_new demo_runtime (Some ''validator2'') ''validator2'' (Fin 50) (Fin 1) (Fin 1))"

definition spend1 :: Transaction where
  "spend1 = signTransaction ''key''
     (Transaction_new demo_runtime (Some ''validator2'') ''bob'' (Fin 800000) (Fin 0) (Fin 1))"

definition spend2 :: Transaction where
  "spend2 = signTransaction ''key''
     (Transaction_new demo_runtime (Some ''validator2'') ''bob'' (Fin 800000) (Fin 0) (Fin 2))"


definition transfer :: Transaction where
  "transfer = signTransaction ''key''
     (Transaction_new demo_runtime (Some ''validator2'') ''bob'' (Fin 50) (Fin 1) (Fin 1))"

definition validator1_only :: CosmosBlockchain where
  "validator1_only =
     snd (delegate ''alice'' ''validator3'' (Fin (- 600000))
       (snd (delegate ''alice'' ''validator2'' (Fin (- 800000)) genesis0)))"

definition no_stake :: CosmosBlockchain where
  "no_stake = snd (delegate ''alice'' ''validator1'' (Fin (- 1000000)) validator1_only)"

definition after_first_block :: CosmosBlockchain where
  "after_first_block = snd (minePendingTransactions demo_runtime (Fin 0) (Fin 1) (Fin 2) genesis0)"

text \<open>The state after the two transfers of \<open>spend1\<close> and \<open>spend2\<close> and one block.\<close>

definition overdrawn :: CosmosBlockchain where
  "overdrawn =
     snd (minePendingTransactions demo_runtime (Fin 0) (Fin 3) (Fin 4)
       (snd (createTransaction spend2 (snd (createTransaction spend1 genesis0)))))"

text \<open>The double that \<open>parseFloat\<close> reads from the text \<open>1e-11\<close>.\<close>

definition tiny :: number where
  "tiny = rnd (1 / 10 ^ 11)"

text \<open>
  An unsigned transaction without origin and with the amount \<open>2 ^ 60\<close>, and the state
  after it has been submitted and a block produced.
\<close>

definition mint :: Transaction where
  "mint = Transaction_new demo_runtime None ''validator1'' (Fin (2 ^ 60)) (Fin 0) (Fin 1)"

definition inflated :: CosmosBlockchain where
  "inflated =
     snd (minePendingTransactions demo_runtime (Fin 0) (Fin 2) (Fin 3)
       (snd (createTransaction mint genesis0)))"

section \<open>Basic facts\<close>

subsection \<open>Rounding is exact on the integers below \<open>2 ^ 53\<close>\<close>

lemma roundHalfEven_of_int [simp]: "roundHalfEven (of_int z) = z"
  by (simp add: roundHalfEven_def)

lemma ilog2_of_int:
  assumes "0 < n"
  shows "ilog2 (of_int n) = bitlen n - 1"
proof -
  have b1: "bitlen 1 = 1" by (simp add: bitlen_alt_def)
  from bitlen_bounds [OF assms] have "2 ^ nat (bitlen n - 1) \<le> n" by simp
  then have "(of_int (2 ^ nat (bitlen n - 1)) :: rat) \<le> of_int n"
    by (simp only: of_int_le_iff)
  moreover have "0 \<le> bitlen n - 1"
    using assms by (simp add: bitlen_alt_def)
  ultimately have "(2::rat) powi (bitlen n - 1) \<le> of_int n"
    by (simp add: power_int_nonneg_exp)
  then show ?thesis
    by (simp add: ilog2_def b1)
qed

lemma rnd_of_int_pos:
  assumes "0 < n" "n < 2 ^ 53"
  shows "rnd (of_int n) = Fin (of_int n)"
proof -
  define k where "k = bitlen n - 1"
  have k0: "0 \<le> k" using assms(1) by (simp add: k_def bitlen_alt_def)
  from bitlen_bounds [OF assms(1)] have "2 ^ nat k \<le> n" by (simp add: k_def)
  with assms(2) have "(2::int) ^ nat k < 2 ^ 53" by simp
  then have "nat k < 53" by (rule power_less_imp_less_exp [rotated]) simp
  with k0 have k52: "k \<le> 52" by simp
  define j where "j = nat (52 - k)"
  have q: "(2::rat) powi (max k (- 1022) - 52) = 1 / 2 ^ j"
  proof -
    have "max k (- 1022) - 52 = - int j" using k0 k52 by (simp add: j_def)
    then show ?thesis by (simp add: power_int_minus_divide)
  qed
  have div: "(of_int n :: rat) / (1 / 2 ^ j) = of_int (n * 2 ^ j)" by simp
  have small: "\<not> (2::rat) powi 1024 \<le> of_int n"
  proof -
    have "(of_int n :: rat) < of_int (2 ^ 53)" using assms(2) by (simp only: of_int_less_iff)
    also have "\<dots> \<le> 2 ^ 1024" by simp
    finally show ?thesis by simp
  qed
  have pos: "(0::rat) < of_int n" "(of_int n :: rat) \<noteq> 0" using assms(1) by simp_all
  have abs: "\<bar>of_int n :: rat\<bar> = of_int n" using assms(1) by simp
  show ?thesis
    unfolding rnd_def Let_def abs ilog2_of_int [OF assms(1)] k_def [symmetric] q div
      roundHalfEven_of_int
    using pos small by simp
qed

lemma rnd_minus:
  "rnd (- x) = (case rnd x of Fin y \<Rightarrow> Fin (- y) | PInf \<Rightarrow> NInf | NInf \<Rightarrow> PInf | NaN \<Rightarrow> NaN)"
  by (simp add: rnd_def Let_def)

lemma rnd_of_int:
  assumes "\<bar>n\<bar> < 2 ^ 53"
  shows "rnd (of_int n) = Fin (of_int n)"
proof -
  consider "n = 0" | "0 < n" | "n < 0" by linarith
  then show ?thesis
  proof cases
    case 1
    then show ?thesis by (simp add: rnd_def)
  next
    case 2
    with assms show ?thesis by (simp add: rnd_of_int_pos)
  next
    case 3
    with assms have p: "0 < - n" "- n < 2 ^ 53" by simp_all
    from rnd_of_int_pos [OF p] have "rnd (of_int (- n)) = Fin (of_int (- n))" .
    with rnd_minus [of "of_int (- n)"] show ?thesis by simp
  qed
qed

subsection \<open>\<open>ilog2\<close> is the binary exponent\<close>

lemma bitlen_powi:
  assumes "0 < n"
  shows "(2::rat) powi (bitlen n - 1) \<le> of_int n" "(of_int n :: rat) < 2 powi (bitlen n)"
proof -
  have nn: "0 \<le> bitlen n - 1" "0 \<le> bitlen n" using assms by (simp_all add: bitlen_alt_def)
  from bitlen_bounds [OF assms]
  have "2 ^ nat (bitlen n - 1) \<le> n" "n < 2 ^ nat (bitlen n)" by simp_all
  then have "(of_int (2 ^ nat (bitlen n - 1)) :: rat) \<le> of_int n"
    "(of_int n :: rat) < of_int (2 ^ nat (bitlen n))"
    by (simp_all only: of_int_le_iff of_int_less_iff)
  with nn show "(2::rat) powi (bitlen n - 1) \<le> of_int n" "(of_int n :: rat) < 2 powi (bitlen n)"
    by (simp_all add: power_int_nonneg_exp)
qed

lemma ilog2_bounds:
  assumes "0 < a"
  shows "2 powi (ilog2 a) \<le> a \<and> a < 2 powi (ilog2 a + 1)"
proof -
  obtain p q where pq: "quotient_of a = (p, q)" by (cases "quotient_of a")
  then have a: "a = of_int p / of_int q" and q: "0 < q"
    by (simp_all add: quotient_of_div quotient_of_denom_pos)
  with assms have p: "0 < p" by (simp add: zero_less_divide_iff)
  define k where "k = bitlen p - bitlen q"
  note bp = bitlen_powi [OF p] and bq = bitlen_powi [OF q]
  have qpos: "(0::rat) < of_int q" using q by simp
  have "a < 2 powi (bitlen p) / 2 powi (bitlen q - 1)"
    unfolding a using bp(2) bq(1) qpos
    by (intro frac_less) (simp_all add: p less_imp_le)
  also have "\<dots> = 2 powi (k + 1)"
    by (simp add: k_def power_int_diff [symmetric] algebra_simps)
  finally have up: "a < 2 powi (k + 1)" .
  have "2 powi (bitlen p - 1) / 2 powi (bitlen q) \<le> a"
    unfolding a using bp(1) bq(2) qpos
    by (intro frac_le) (simp_all add: p less_imp_le)
  moreover have "2 powi (bitlen p - 1) / 2 powi (bitlen q) = (2::rat) powi (k - 1)"
    by (simp add: k_def power_int_diff [symmetric] algebra_simps)
  ultimately have lo: "2 powi (k - 1) \<le> a" by simp
  have il: "ilog2 a = (if 2 powi k \<le> a then k else k - 1)"
    by (simp add: ilog2_def pq k_def Let_def)
  show ?thesis
  proof (cases "2 powi k \<le> a")
    case True
    with up il show ?thesis by simp
  next
    case False
    with lo il show ?thesis by simp
  qed
qed

lemma ilog2_unique:
  assumes "0 < a" "2 powi e \<le> a" "a < 2 powi (e + 1)"
  shows "ilog2 a = e"
proof -
  from ilog2_bounds [OF assms(1)]
  have b: "2 powi (ilog2 a) \<le> a" "a < 2 powi (ilog2 a + 1)" by simp_all
  have 1: "e < ilog2 a + 1"
  proof (rule ccontr)
    assume "\<not> e < ilog2 a + 1"
    then have "(2::rat) powi (ilog2 a + 1) \<le> 2 powi e"
      by (intro power_int_increasing) simp_all
    with assms(2) b(2) show False by simp
  qed
  have 2: "ilog2 a < e + 1"
  proof (rule ccontr)
    assume "\<not> ilog2 a < e + 1"
    then have "(2::rat) powi (e + 1) \<le> 2 powi (ilog2 a)"
      by (intro power_int_increasing) simp_all
    with assms(3) b(1) show False by simp
  qed
  from 1 2 show ?thesis by simp
qed


lemma rnd_at:
  assumes "x \<noteq> 0" "2 powi e \<le> \<bar>x\<bar>" "\<bar>x\<bar> < 2 powi (e + 1)"
  shows "rnd x =
           (let q = 2 powi (max e (- 1022) - 52);
                y = of_int (roundHalfEven (\<bar>x\<bar> / q)) * q
            in if 2 powi 1024 \<le> y then (if 0 < x then PInf else NInf)
               else Fin (if 0 < x then y else - y))"
proof -
  from assms(1) have "0 < \<bar>x\<bar>" by simp
  from ilog2_unique [OF this assms(2,3)] have "ilog2 \<bar>x\<bar> = e" .
  with assms(1) show ?thesis
    unfolding rnd_def by (simp only: Let_def if_False)
qed

lemma floor_rat_numeral [simp]:
  "\<lfloor>(numeral a :: rat) / numeral b\<rfloor> = numeral a div numeral b"
  using floor_divide_of_int_eq [of "numeral a" "numeral b", where ?'a = rat] by simp

subsection \<open>Rounding is monotone\<close>

lemma roundHalfEven_range: "\<lfloor>x\<rfloor> \<le> roundHalfEven x \<and> roundHalfEven x \<le> \<lfloor>x\<rfloor> + 1"
  by (simp add: roundHalfEven_def Let_def)

lemma roundHalfEven_mono:
  assumes "x \<le> y"
  shows "roundHalfEven x \<le> roundHalfEven y"
proof (cases "\<lfloor>x\<rfloor> = \<lfloor>y\<rfloor>")
  case True
  with assms have "x - of_int \<lfloor>x\<rfloor> \<le> y - of_int \<lfloor>y\<rfloor>" by simp
  with True show ?thesis
    by (auto simp: roundHalfEven_def Let_def)
next
  case False
  with assms have "\<lfloor>x\<rfloor> < \<lfloor>y\<rfloor>"
    using floor_mono [OF assms] by simp
  with roundHalfEven_range [of x] roundHalfEven_range [of y] show ?thesis by linarith
qed

lemma roundHalfEven_ge: "of_int k \<le> x \<Longrightarrow> k \<le> roundHalfEven x"
  using roundHalfEven_mono [of "of_int k" x] by simp

lemma roundHalfEven_le: "x \<le> of_int k \<Longrightarrow> roundHalfEven x \<le> k"
  using roundHalfEven_mono [of x "of_int k"] by simp

lemma ilog2_mono:
  assumes "0 < x" "x \<le> y"
  shows "ilog2 x \<le> ilog2 y"
proof (rule ccontr)
  assume "\<not> ilog2 x \<le> ilog2 y"
  then have "(2::rat) powi (ilog2 y + 1) \<le> 2 powi (ilog2 x)"
    by (intro power_int_increasing) simp_all
  moreover from assms have "0 < y" by simp
  ultimately show False
    using ilog2_bounds [OF assms(1)] ilog2_bounds [OF \<open>0 < y\<close>] assms(2) by simp
qed

lemma rnd_pos:
  "0 < x \<Longrightarrow> rnd x = (if 2 powi 1024 \<le> rounded x then PInf else Fin (rounded x))"
  by (simp add: rnd_def rounded_def Let_def)

lemma rounded_nonneg: "0 < a \<Longrightarrow> 0 \<le> rounded a"
proof -
  assume a: "0 < a"
  have "(0::rat) < 2 powi (max (ilog2 a) (- 1022) - 52)" by simp
  with a have "of_int 0 \<le> a / 2 powi (max (ilog2 a) (- 1022) - 52)" by simp
  then have "0 \<le> roundHalfEven (a / 2 powi (max (ilog2 a) (- 1022) - 52))"
    by (rule roundHalfEven_ge)
  then show ?thesis by (simp add: rounded_def)
qed

lemma rounded_upper:
  assumes "0 < a"
  shows "rounded a \<le> 2 powi (max (ilog2 a) (- 1022) + 1)"
proof -
  define e where "e = max (ilog2 a) (- 1022)"
  have q: "(0::rat) < 2 powi (e - 52)" by simp
  have "a < 2 powi (ilog2 a + 1)" using ilog2_bounds [OF assms] by simp
  also have "\<dots> \<le> 2 powi (e + 1)"
    by (intro power_int_increasing) (simp_all add: e_def)
  finally have "a / 2 powi (e - 52) \<le> 2 powi (e + 1) / 2 powi (e - 52)"
    using q by (simp add: divide_right_mono)
  also have "2 powi (e + 1) / 2 powi (e - 52) = (2::rat) powi 53"
    by (simp add: power_int_diff [symmetric])
  also have "\<dots> = of_int (2 ^ 53)" by simp
  finally have "roundHalfEven (a / 2 powi (e - 52)) \<le> 2 ^ 53"
    by (rule roundHalfEven_le)
  then have "(of_int (roundHalfEven (a / 2 powi (e - 52))) :: rat) \<le> of_int (2 ^ 53)"
    by (simp only: of_int_le_iff)
  then have "of_int (roundHalfEven (a / 2 powi (e - 52))) * 2 powi (e - 52)
      \<le> (of_int (2 ^ 53) :: rat) * 2 powi (e - 52)"
    using q by (simp add: mult_right_mono)
  also have "(of_int (2 ^ 53) :: rat) * 2 powi (e - 52) = 2 powi 53 * 2 powi (e - 52)" by simp
  also have "\<dots> = 2 powi (e + 1)"
    by (subst power_int_add [symmetric]) (simp_all add: add.commute)
  finally show ?thesis by (simp add: rounded_def e_def)
qed

lemma rounded_lower:
  assumes "0 < a" "- 1022 \<le> ilog2 a"
  shows "2 powi (ilog2 a) \<le> rounded a"
proof -
  define e where "e = ilog2 a"
  have m: "max (ilog2 a) (- 1022) = e" using assms(2) by (simp add: e_def)
  have q: "(0::rat) < 2 powi (e - 52)" by simp
  have "2 powi e \<le> a" using ilog2_bounds [OF assms(1)] by (simp add: e_def)
  then have "2 powi e / 2 powi (e - 52) \<le> a / 2 powi (e - 52)"
    using q by (simp add: divide_right_mono)
  moreover have "2 powi e / 2 powi (e - 52) = (2::rat) powi 52"
    by (simp add: power_int_diff [symmetric])
  moreover have "(2::rat) powi 52 = of_int (2 ^ 52)" by simp
  ultimately have "of_int (2 ^ 52) \<le> a / 2 powi (e - 52)" by simp
  then have "2 ^ 52 \<le> roundHalfEven (a / 2 powi (e - 52))"
    by (rule roundHalfEven_ge)
  then have "(of_int (2 ^ 52) :: rat) \<le> of_int (roundHalfEven (a / 2 powi (e - 52)))"
    by (simp only: of_int_le_iff)
  have "2 powi e = (2::rat) powi 52 * 2 powi (e - 52)"
    by (subst power_int_add [symmetric]) simp_all
  also have "\<dots> \<le> of_int (roundHalfEven (a / 2 powi (e - 52))) * 2 powi (e - 52)"
    using \<open>(of_int (2 ^ 52) :: rat) \<le> of_int (roundHalfEven (a / 2 powi (e - 52)))\<close> q
    by (intro mult_right_mono) simp_all
  finally show ?thesis
    by (simp add: rounded_def e_def m [unfolded e_def])
qed

lemma rounded_mono:
  assumes "0 < x" "x \<le> y"
  shows "rounded x \<le> rounded y"
proof -
  from assms have y: "0 < y" by simp
  define ex where "ex = max (ilog2 x) (- 1022)"
  define ey where "ey = max (ilog2 y) (- 1022)"
  from ilog2_mono [OF assms] have le: "ex \<le> ey" by (simp add: ex_def ey_def)
  show ?thesis
  proof (cases "ex = ey")
    case True
    have q: "(0::rat) < 2 powi (ey - 52)" by simp
    from assms(2) q have "x / 2 powi (ey - 52) \<le> y / 2 powi (ey - 52)"
      by (simp add: divide_right_mono)
    then have "roundHalfEven (x / 2 powi (ey - 52)) \<le> roundHalfEven (y / 2 powi (ey - 52))"
      by (rule roundHalfEven_mono)
    then have "(of_int (roundHalfEven (x / 2 powi (ey - 52))) :: rat)
        \<le> of_int (roundHalfEven (y / 2 powi (ey - 52)))"
      by (simp only: of_int_le_iff)
    with q have "of_int (roundHalfEven (x / 2 powi (ey - 52))) * 2 powi (ey - 52)
        \<le> (of_int (roundHalfEven (y / 2 powi (ey - 52))) :: rat) * 2 powi (ey - 52)"
      by (simp add: mult_right_mono)
    with True show ?thesis
      by (simp add: rounded_def ex_def [symmetric] ey_def [symmetric])
  next
    case False
    with le have lt: "ex + 1 \<le> ey" by simp
    then have "- 1022 < ey" by (simp add: ex_def)
    then have ey: "ey = ilog2 y" "- 1022 \<le> ilog2 y" by (simp_all add: ey_def)
    have "rounded x \<le> 2 powi (ex + 1)"
      using rounded_upper [OF assms(1)] by (simp add: ex_def)
    also have "\<dots> \<le> 2 powi ey"
      using lt by (intro power_int_increasing) simp_all
    also have "\<dots> \<le> rounded y"
      using rounded_lower [OF y ey(2)] by (simp add: ey(1))
    finally show ?thesis .
  qed
qed

lemma rnd_nonneg:
  assumes "0 \<le> x"
  shows "fle (Fin 0) (rnd x)"
proof (cases "x = 0")
  case True
  then show ?thesis by (simp add: rnd_def)
next
  case False
  with assms rounded_nonneg [of x] show ?thesis by (simp add: rnd_pos)
qed

lemma rnd_mono_pos:
  assumes "0 < x" "x \<le> y"
  shows "fle (rnd x) (rnd y)"
proof -
  from assms have y: "0 < y" by simp
  from rounded_mono [OF assms] show ?thesis
    by (simp add: rnd_pos assms(1) y)
qed

lemma fneg_fneg [simp]: "fneg (fneg a) = a"
  by (cases a) simp_all

lemma fle_fneg: "fle a b \<Longrightarrow> fle (fneg b) (fneg a)"
  by (cases a; cases b) simp_all

lemma fle_trans: "fle a b \<Longrightarrow> fle b c \<Longrightarrow> fle a c"
  by (cases a; cases b; cases c) simp_all

lemma rnd_fneg: "rnd (- x) = fneg (rnd x)"
  by (simp add: rnd_minus split: number.splits)

lemma rnd_mono:
  assumes "x \<le> y"
  shows "fle (rnd x) (rnd y)"
proof -
  consider "0 < x" | "x \<le> 0" "0 \<le> y" | "y < 0" using assms by linarith
  then show ?thesis
  proof cases
    case 1
    from 1 assms show ?thesis by (rule rnd_mono_pos)
  next
    case 2
    from 2(1) have "fle (Fin 0) (rnd (- x))" by (intro rnd_nonneg) simp
    then have "fle (rnd x) (Fin 0)"
      using fle_fneg [of "Fin 0" "rnd (- x)"] by (simp add: rnd_fneg)
    moreover from 2(2) have "fle (Fin 0) (rnd y)" by (rule rnd_nonneg)
    ultimately show ?thesis by (rule fle_trans)
  next
    case 3
    with assms have "0 < - y" "- y \<le> - x" by simp_all
    then have "fle (rnd (- y)) (rnd (- x))" by (rule rnd_mono_pos)
    then have "fle (fneg (rnd (- x))) (fneg (rnd (- y)))" by (rule fle_fneg)
    then show ?thesis by (simp add: rnd_fneg [symmetric])
  qed
qed

subsection \<open>Arithmetic on integers\<close>

lemma rnd_numeral [simp]:
  "rnd 0 = Fin 0"
  "rnd 1 = Fin 1"
  "numeral k < (9007199254740992::int) \<Longrightarrow> rnd (numeral k) = Fin (numeral k)"
  "numeral k < (9007199254740992::int) \<Longrightarrow> rnd (- numeral k) = Fin (- numeral k)"
  using rnd_of_int [of 0] rnd_of_int [of 1] rnd_of_int [of "numeral k"]
    rnd_of_int [of "- numeral k"]
  by simp_all

lemma fadd_int:
  "\<bar>a + b\<bar> < 2 ^ 53 \<Longrightarrow> fadd (Fin (of_int a)) (Fin (of_int b)) = Fin (of_int (a + b))"
  using rnd_of_int [of "a + b"] by simp

lemma fsub_int:
  "\<bar>a - b\<bar> < 2 ^ 53 \<Longrightarrow> fsub (Fin (of_int a)) (Fin (of_int b)) = Fin (of_int (a - b))"
  using rnd_of_int [of "a - b"] by (simp add: fsub_def)

lemma fsub_Fin [simp]: "fsub (Fin x) (Fin y) = rnd (x - y)"
  by (simp add: fsub_def)

lemma orZero_simps [simp]:
  "orZero (Fin x) = Fin x"
  "orZero NaN = Fin 0"
  "orZero PInf = PInf"
  "orZero NInf = NInf"
  "orZero (orZero y) = orZero y"
  by (auto simp: orZero_def)

lemma orZero_not_NaN [simp]: "orZero x \<noteq> NaN"
  by (simp add: orZero_def)

lemma fle_refl: "x \<noteq> NaN \<Longrightarrow> fle x x"
  by (cases x) simp_all

lemma fadd_nonneg_not_below:
  assumes "fle (Fin 0) m" "isDouble b" "b \<noteq> NaN"
  shows "fle b (orZero (fadd b m))"
proof (cases b)
  case (Fin bv)
  with assms(2) have d: "rnd bv = Fin bv" by (simp add: isDouble_def)
  show ?thesis
  proof (cases m)
    case (Fin mv)
    with assms(1) have "bv \<le> bv + mv" by simp
    from rnd_mono [OF this] have "fle (Fin bv) (rnd (bv + mv))" by (simp add: d)
    then have "fle (Fin bv) (orZero (rnd (bv + mv)))"
      by (cases "rnd (bv + mv)") (simp_all add: orZero_def)
    with Fin \<open>b = Fin bv\<close> show ?thesis by simp
  next
    case PInf
    with \<open>b = Fin bv\<close> show ?thesis by (simp add: orZero_def)
  next
    case NInf
    with assms(1) show ?thesis by simp
  next
    case NaN
    with assms(1) show ?thesis by simp
  qed
next
  case PInf
  with assms(1) show ?thesis by (cases m) (simp_all add: orZero_def)
next
  case NInf
  with assms(1) show ?thesis by (cases m) (simp_all add: orZero_def)
next
  case NaN
  with assms(3) show ?thesis by simp
qed

subsection \<open>Fields and balances\<close>

lemma getBalance_setBalance [simp]:
  "getBalance (setBalance a b s) x = (if x = a then orZero b else getBalance s x)"
  by (simp add: getBalance_def setBalance_def)

lemma getBalance_orZero [simp]: "orZero (getBalance s x) = getBalance s x"
  by (simp add: getBalance_def split: option.splits)

lemma getBalance_not_NaN [simp]: "getBalance s x \<noteq> NaN"
  by (simp add: getBalance_def split: option.splits)

lemma setBalance_fields [simp]:
  "chain (setBalance a b s) = chain s"
  "pendingTransactions (setBalance a b s) = pendingTransactions s"
  "miningReward (setBalance a b s) = miningReward s"
  "validators (setBalance a b s) = validators s"
  "stakingPool (setBalance a b s) = stakingPool s"
  "totalSupply (setBalance a b s) = totalSupply s"
  by (simp_all add: setBalance_def)

lemma getBalance_update_other [simp]:
  "getBalance (s\<lparr>totalSupply := ts\<rparr>) x = getBalance s x"
  "getBalance (s\<lparr>pendingTransactions := p\<rparr>) x = getBalance s x"
  "getBalance (s\<lparr>chain := c\<rparr>) x = getBalance s x"
  "getBalance (s\<lparr>validators := vs\<rparr>) x = getBalance s x"
  "getBalance (s\<lparr>stakingPool := sp\<rparr>) x = getBalance s x"
  by (simp_all add: getBalance_def)

lemma Transaction_new_fields [simp]:
  "fromAddress (Transaction_new rt from to x f t) = from"
  "toAddress (Transaction_new rt from to x f t) = to"
  "amount (Transaction_new rt from to x f t) = x"
  "fee (Transaction_new rt from to x f t) = f"
  "signature (Transaction_new rt from to x f t) = None"
  by (simp_all add: Transaction_new_def)

lemma signTransaction_fields [simp]:
  "fromAddress (signTransaction k tx) = fromAddress tx"
  "toAddress (signTransaction k tx) = toAddress tx"
  "amount (signTransaction k tx) = amount tx"
  "fee (signTransaction k tx) = fee tx"
  "isValid (signTransaction k tx)"
  by (simp_all add: signTransaction_def isValid_def)

lemma createTransaction_signed:
  "createTransaction (signTransaction k tx) s
     = (Inr (), s\<lparr>pendingTransactions := pendingTransactions s @ [signTransaction k tx]\<rparr>)"
  by (simp add: createTransaction_def)

lemma createTransaction_fields [simp]:
  "chain (snd (createTransaction tx s)) = chain s"
  "miningReward (snd (createTransaction tx s)) = miningReward s"
  by (simp_all add: createTransaction_def)

lemma map_of_mutate:
  "map_of (mutate k f es) x = (if x = k then map_option f (map_of es x) else map_of es x)"
  by (induction es) (auto simp: mutate_def)

subsection \<open>Settlement\<close>

lemma settle_transfer_balance:
  assumes "fromAddress tx = Some from"
  shows "getBalance (settleTransaction va s tx) x =
           (let b1 = (\<lambda>y. if y = from
                           then orZero (fsub (fsub (getBalance s from) (amount tx)) (fee tx))
                           else getBalance s y);
                b2 = (\<lambda>y. if y = toAddress tx
                           then orZero (fadd (b1 (toAddress tx)) (amount tx)) else b1 y)
            in if x = va then orZero (fadd (b2 va) (fee tx)) else b2 x)"
  using assms by (simp add: settleTransaction_def Let_def)

lemma settle_reward_balance:
  assumes "fromAddress tx = None"
  shows "getBalance (settleTransaction va s tx) x =
           (if x = toAddress tx then orZero (fadd (getBalance s x) (amount tx))
            else getBalance s x)"
  using assms by (simp add: settleTransaction_def Let_def)

lemma settle_fields [simp]:
  "chain (settleTransaction va s tx) = chain s"
  "pendingTransactions (settleTransaction va s tx) = pendingTransactions s"
  "miningReward (settleTransaction va s tx) = miningReward s"
  "validators (settleTransaction va s tx) = validators s"
  "stakingPool (settleTransaction va s tx) = stakingPool s"
  by (simp_all add: settleTransaction_def Let_def split: option.splits)

lemma settle_totalSupply:
  "totalSupply (settleTransaction va s tx) =
     (case fromAddress tx of None \<Rightarrow> fadd (totalSupply s) (amount tx)
      | Some from \<Rightarrow> totalSupply s)"
  by (simp add: settleTransaction_def Let_def split: option.splits)

lemma settle_all_fields [simp]:
  "chain (foldl (settleTransaction va) s txs) = chain s"
  "pendingTransactions (foldl (settleTransaction va) s txs) = pendingTransactions s"
  "miningReward (foldl (settleTransaction va) s txs) = miningReward s"
  "validators (foldl (settleTransaction va) s txs) = validators s"
  "stakingPool (foldl (settleTransaction va) s txs) = stakingPool s"
  by (induction txs arbitrary: s) simp_all

lemma settleTransaction_pending:
  "settleTransaction va (s\<lparr>pendingTransactions := p\<rparr>) tx
     = (settleTransaction va s tx)\<lparr>pendingTransactions := p\<rparr>"
  by (simp add: settleTransaction_def Let_def setBalance_def getBalance_def
      split: option.splits)

lemma settle_all_pending:
  "foldl (settleTransaction va) (s\<lparr>pendingTransactions := p\<rparr>) txs
     = (foldl (settleTransaction va) s txs)\<lparr>pendingTransactions := p\<rparr>"
  by (induction txs arbitrary: s) (simp_all add: settleTransaction_pending)

lemma settled_0 [simp]: "settled va s txs 0 = s"
  by (simp add: settled_def)

lemma settled_Suc:
  "i < length txs \<Longrightarrow> settled va s txs (Suc i) = settleTransaction va (settled va s txs i) (txs ! i)"
  by (simp add: settled_def take_Suc_conv_app_nth)

lemma settled_all: "settled va s txs (length txs) = foldl (settleTransaction va) s txs"
  by (simp add: settled_def)

lemma transfer_step:
  assumes "i < length txs" "fromAddress (txs ! i) = Some from"
  shows "getBalance (settled va s txs (Suc i)) x =
           (let b = getBalance (settled va s txs i);
                b1 = (\<lambda>y. if y = from
                           then orZero (fsub (fsub (b from) (amount (txs ! i))) (fee (txs ! i)))
                           else b y);
                b2 = (\<lambda>y. if y = toAddress (txs ! i)
                           then orZero (fadd (b1 (toAddress (txs ! i))) (amount (txs ! i)))
                           else b1 y)
            in if x = va then orZero (fadd (b2 va) (fee (txs ! i))) else b2 x)"
  using assms by (simp add: settled_Suc settle_transfer_balance Let_def)

lemma transfer_step_exact:
  assumes "i < length txs" "fromAddress (txs ! i) = Some from"
    and "from \<noteq> toAddress (txs ! i)" "from \<noteq> va" "toAddress (txs ! i) \<noteq> va"
    and "getBalance (settled va s txs i) from = Fin (of_int n)"
    and "amount (txs ! i) = Fin (of_int m)" "fee (txs ! i) = Fin (of_int f)"
    and "getBalance (settled va s txs i) (toAddress (txs ! i)) = Fin (of_int p)"
    and "getBalance (settled va s txs i) va = Fin (of_int q)"
    and "\<bar>n - m\<bar> < 2 ^ 53" "\<bar>n - m - f\<bar> < 2 ^ 53" "\<bar>p + m\<bar> < 2 ^ 53" "\<bar>q + f\<bar> < 2 ^ 53"
  shows "getBalance (settled va s txs (Suc i)) from = Fin (of_int (n - (m + f)))"
    and "getBalance (settled va s txs (Suc i)) (toAddress (txs ! i)) = Fin (of_int (p + m))"
    and "getBalance (settled va s txs (Suc i)) va = Fin (of_int (q + f))"
proof -
  have "fsub (Fin (of_int n)) (Fin (of_int m)) = Fin (of_int (n - m))"
    using assms(11) by (rule fsub_int)
  moreover have "fsub (Fin (of_int (n - m))) (Fin (of_int f)) = Fin (of_int (n - m - f))"
    using assms(12) by (rule fsub_int)
  moreover have "n - m - f = n - (m + f)" by simp
  ultimately have 1: "fsub (fsub (Fin (of_int n)) (Fin (of_int m))) (Fin (of_int f))
             = Fin (of_int (n - (m + f)))"
    by (simp only:)
  have 2: "fadd (Fin (of_int p)) (Fin (of_int m)) = Fin (of_int (p + m))"
    using assms(13) by (rule fadd_int)
  have 3: "fadd (Fin (of_int q)) (Fin (of_int f)) = Fin (of_int (q + f))"
    using assms(14) by (rule fadd_int)
  note step = transfer_step [OF assms(1,2), of va s, unfolded Let_def assms(6,7,8,9,10)]
  have ne: "toAddress (txs ! i) \<noteq> from" "va \<noteq> from" "va \<noteq> toAddress (txs ! i)"
    using assms(3,4,5) by auto
  show "getBalance (settled va s txs (Suc i)) from = Fin (of_int (n - (m + f)))"
    by (simp only: step 1 2 3 ne assms(3,4,5) if_True if_False orZero_simps refl)
  show "getBalance (settled va s txs (Suc i)) (toAddress (txs ! i)) = Fin (of_int (p + m))"
    by (simp only: step 1 2 3 ne assms(3,4,5) if_True if_False orZero_simps refl)
  show "getBalance (settled va s txs (Suc i)) va = Fin (of_int (q + f))"
    by (simp only: step 1 2 3 ne assms(3,4,5) if_True if_False orZero_simps refl)
qed

lemma isTransactionValid_pending [simp]:
  "isTransactionValid (s\<lparr>pendingTransactions := p\<rparr>) = isTransactionValid s"
  by (rule ext) (simp add: isTransactionValid_def split: option.splits)

subsection \<open>Selection and block production\<close>

lemma selectValidator_fields [simp]:
  "selectValidator r (s\<lparr>pendingTransactions := p\<rparr>) = selectValidator r s"
  by (simp add: selectValidator_def activeValidators_def)

lemma walk_mem: "walk x c es = Some e \<Longrightarrow> e \<in> set es"
  by (induction es arbitrary: c) (auto simp: Let_def split: if_splits)

lemma selectValidator_active:
  assumes "activeValidators s \<noteq> []"
  shows "\<exists>e \<in> set (activeValidators s). selectValidator r s = Inr e"
proof -
  from assms obtain first others where av: "activeValidators s = first # others"
    by (cases "activeValidators s") auto
  define x where
    "x = fmul r (foldl (\<lambda>sum e. fadd sum (stake (snd e))) (Fin 0) (first # others))"
  show ?thesis
  proof (cases "walk x (Fin 0) (first # others)")
    case None
    then have "selectValidator r s = Inr first"
      by (simp add: selectValidator_def av x_def Let_def del: walk.simps foldl.simps)
    then show ?thesis by (simp add: av)
  next
    case (Some e)
    then have "selectValidator r s = Inr e"
      by (simp add: selectValidator_def av x_def Let_def del: walk.simps foldl.simps)
    moreover from Some have "e \<in> set (first # others)" by (rule walk_mem)
    ultimately show ?thesis by (simp add: av)
  qed
qed

lemma mine_miningReward [simp]:
  "miningReward (snd (minePendingTransactions rt r t1 t2 s)) = miningReward s"
  by (simp add: minePendingTransactions_def getLatestBlock_def Let_def split: sum.splits prod.splits)

text \<open>What a call of \<open>minePendingTransactions\<close> that selects a validator on a non-empty chain returns.\<close>

lemma mine_success:
  fixes rt :: js_runtime and t1 t2 :: number
  assumes "selectValidator r s = Inr (key, v)" "chain s \<noteq> []"
  defines "txs \<equiv> filter (isTransactionValid s)
             (pendingTransactions s @ [Transaction_new rt None (address v) (miningReward s) (Fin 0) t1])"
  defines "block \<equiv> Block_new rt (length (chain s)) txs (blockHash (last (chain s))) (address v) t2"
  shows "minePendingTransactions rt r t1 t2 s =
           (Inr block,
            (foldl (settleTransaction (address v)) s txs)
              \<lparr>chain := chain s @ [block],
               validators := mutate key (\<lambda>w. w\<lparr>totalBlocks := totalBlocks w + 1\<rparr>) (validators s),
               pendingTransactions := []\<rparr>)"
  using assms(1,2) unfolding txs_def block_def
  by (simp add: minePendingTransactions_def getLatestBlock_def Let_def settle_all_pending
      del: filter_append foldl_append)

lemma mine_Inr:
  assumes "minePendingTransactions rt r t1 t2 s = (Inr block, s')"
  shows "\<exists>key v. selectValidator r s = Inr (key, v) \<and> chain s \<noteq> []"
  using assms
  by (auto simp: minePendingTransactions_def getLatestBlock_def Let_def
      split: sum.splits prod.splits if_splits)

lemma mine_chain:
  assumes "selectValidator r s = Inr (key, v)" "chain s \<noteq> []"
  shows "chain (snd (minePendingTransactions rt r t1 t2 s)) =
           chain s @ [Block_new rt (length (chain s))
             (filter (isTransactionValid s)
                (pendingTransactions s
                   @ [Transaction_new rt None (address v) (miningReward s) (Fin 0) t1]))
             (blockHash (last (chain s))) (address v) t2]"
  by (simp add: mine_success [OF assms])

lemma mine_getBalance:
  assumes "selectValidator r s = Inr (key, v)" "chain s \<noteq> []"
  shows "getBalance (snd (minePendingTransactions rt r t1 t2 s)) x =
           getBalance (foldl (settleTransaction (address v)) s
             (filter (isTransactionValid s)
                (pendingTransactions s
                   @ [Transaction_new rt None (address v) (miningReward s) (Fin 0) t1]))) x"
  by (simp add: mine_success [OF assms])

lemma mine_totalSupply:
  assumes "selectValidator r s = Inr (key, v)" "chain s \<noteq> []"
  shows "totalSupply (snd (minePendingTransactions rt r t1 t2 s)) =
           totalSupply (foldl (settleTransaction (address v)) s
             (filter (isTransactionValid s)
                (pendingTransactions s
                   @ [Transaction_new rt None (address v) (miningReward s) (Fin 0) t1])))"
  by (simp add: mine_success [OF assms])

subsection \<open>Delegation\<close>

lemma delegate_fields [simp]:
  "chain (snd (delegate d va a s)) = chain s"
  "miningReward (snd (delegate d va a s)) = miningReward s"
  by (simp_all add: delegate_def Let_def)

lemma delegate_success:
  assumes "map_of (validators s) va = Some v" "\<not> flt (getBalance s d) a"
  shows "\<exists>s'. delegate d va a s = (Inr (), s')
           \<and> getBalance s' d = orZero (fsub (getBalance s d) a)
           \<and> getStakingInfo s' d va
               = Some (fadd (case getStakingInfo s d va of None \<Rightarrow> Fin 0 | Some c \<Rightarrow> orZero c) a)
           \<and> map_of (validators s') va = Some (v\<lparr>stake := fadd (stake v) a\<rparr>)"
  using assms
  by (simp add: delegate_def Let_def getStakingInfo_def map_of_mutate increaseStake_def
      split: option.splits)

lemma delegate_success_exact:
  assumes "map_of (validators s) va = Some v" "\<not> flt (getBalance s d) a"
    and "(case getStakingInfo s d va of None \<Rightarrow> Fin 0 | Some c \<Rightarrow> orZero c) = Fin (of_int e)"
    and "stake v = Fin (of_int k)" "getBalance s d = Fin (of_int b)" "a = Fin (of_int n)"
    and "\<bar>e + n\<bar> < 2 ^ 53" "\<bar>k + n\<bar> < 2 ^ 53" "\<bar>b - n\<bar> < 2 ^ 53"
  shows "getStakingInfo (snd (delegate d va a s)) d va = Some (Fin (of_int (e + n)))"
    and "map_of (validators (snd (delegate d va a s))) va = Some (v\<lparr>stake := Fin (of_int (k + n))\<rparr>)"
    and "getBalance (snd (delegate d va a s)) d = Fin (of_int (b - n))"
proof -
  from delegate_success [OF assms(1,2)] obtain s' where s': "delegate d va a s = (Inr (), s')"
    and r: "getBalance s' d = orZero (fsub (getBalance s d) a)"
      "getStakingInfo s' d va
         = Some (fadd (case getStakingInfo s d va of None \<Rightarrow> Fin 0 | Some c \<Rightarrow> orZero c) a)"
      "map_of (validators s') va = Some (v\<lparr>stake := fadd (stake v) a\<rparr>)"
    by blast
  have 1: "fadd (Fin (of_int e)) (Fin (of_int n)) = Fin (of_int (e + n))"
    using assms(7) by (rule fadd_int)
  have 2: "fadd (Fin (of_int k)) (Fin (of_int n)) = Fin (of_int (k + n))"
    using assms(8) by (rule fadd_int)
  have 3: "fsub (Fin (of_int b)) (Fin (of_int n)) = Fin (of_int (b - n))"
    using assms(9) by (rule fsub_int)
  note a = assms(6)
  show "getStakingInfo (snd (delegate d va a s)) d va = Some (Fin (of_int (e + n)))"
    using r(2) [unfolded a] 1 by (simp add: s' [unfolded a] a assms(3))
  show "map_of (validators (snd (delegate d va a s))) va
      = Some (v\<lparr>stake := Fin (of_int (k + n))\<rparr>)"
    using r(3) [unfolded a] 2 by (simp add: s' [unfolded a] a assms(4))
  show "getBalance (snd (delegate d va a s)) d = Fin (of_int (b - n))"
    using r(1) [unfolded a] 3 by (simp add: s' [unfolded a] a assms(5))
qed

lemma delegate_validators:
  "validators (snd (delegate d va a s)) =
     (if map_of (validators s) va = None \<or> flt (getBalance s d) a then validators s
      else mutate va (increaseStake a) (validators s))"
  by (simp add: delegate_def Let_def)

lemma delegate_getBalance:
  "getBalance (snd (delegate d va a s)) x =
     (if map_of (validators s) va = None \<or> flt (getBalance s d) a then getBalance s x
      else if x = d then orZero (fsub (getBalance s d) a) else getBalance s x)"
  by (simp add: delegate_def Let_def)

lemma negative_not_above_nonnegative:
  assumes "flt a (Fin 0)" "fle (Fin 0) b"
  shows "\<not> flt b a"
  using assms by (cases a; cases b) simp_all

subsection \<open>The invariant of the reachable states\<close>

lemma chain_inv_append:
  assumes "chain_inv c" "index b = length c" "previousHash b = blockHash (last c)"
  shows "chain_inv (c @ [b])"
proof -
  have ne: "c \<noteq> []" using assms(1) by (simp add: chain_inv_def)
  have "previousHash ((c @ [b]) ! i) = blockHash ((c @ [b]) ! (i - 1)) \<and> index ((c @ [b]) ! i) = i"
    if "0 < i" "i < length (c @ [b])" for i
  proof (cases "i < length c")
    case True
    then have "i - 1 < length c" by simp
    with True that assms(1) show ?thesis by (simp add: chain_inv_def nth_append)
  next
    case False
    with that have "i = length c" by simp
    with ne assms(2,3) show ?thesis by (simp add: nth_append last_conv_nth)
  qed
  with assms(1) ne show ?thesis by (simp add: chain_inv_def nth_append)
qed

lemma mine_chain_inv:
  assumes "chain_inv (chain s)"
  shows "chain_inv (chain (snd (minePendingTransactions rt r t1 t2 s)))"
proof (cases "selectValidator r s")
  case (Inl e)
  then show ?thesis using assms by (simp add: minePendingTransactions_def)
next
  case (Inr e)
  obtain key v where e: "e = (key, v)" by (cases e)
  have ne: "chain s \<noteq> []" using assms by (simp add: chain_inv_def)
  from Inr e have sel: "selectValidator r s = Inr (key, v)" by simp
  show ?thesis
    using assms by (simp add: mine_chain [OF sel ne] chain_inv_append Block_new_def)
qed

lemma genesis_chain_inv: "chain_inv (chain (CosmosBlockchain_new rt now))"
  by (simp add: CosmosBlockchain_new_def initializeGenesisValidators_def genesisValidators_def
      chain_inv_def createGenesisBlock_def Block_new_def)

lemma genesis_miningReward: "miningReward (CosmosBlockchain_new rt now) = Fin 100"
  by (simp add: CosmosBlockchain_new_def initializeGenesisValidators_def genesisValidators_def)

lemma reachable_inv:
  "reachable rt s \<Longrightarrow> chain_inv (chain s) \<and> miningReward s = Fin 100"
proof (induction rule: reachable.induct)
  case (reachable_new now)
  show ?case by (simp add: genesis_chain_inv genesis_miningReward)
next
  case (reachable_createTransaction s tx)
  then show ?case by simp
next
  case (reachable_mine s r t1 t2)
  then show ?case by (simp add: mine_chain_inv)
next
  case (reachable_delegate s d va a)
  then show ?case by simp
qed

subsection \<open>The states of the concrete runs\<close>

lemma genesis0_validators:
  "validators genesis0 =
     [(''validator1'', Validator_new ''validator1'' (Fin 1000000)),
      (''validator2'', Validator_new ''validator2'' (Fin 800000)),
      (''validator3'', Validator_new ''validator3'' (Fin 600000))]"
  by (simp add: genesis0_def CosmosBlockchain_new_def initializeGenesisValidators_def
      genesisValidators_def)

lemma genesis0_balances:
  "getBalance genesis0 x =
     (if x = ''validator3'' then Fin 600000 else if x = ''validator2'' then Fin 800000
      else if x = ''validator1'' then Fin 1000000 else Fin 0)"
  by (simp add: genesis0_def CosmosBlockchain_new_def initializeGenesisValidators_def
      genesisValidators_def getBalance_def)

lemma genesis0_fields:
  "pendingTransactions genesis0 = []"
  "miningReward genesis0 = Fin 100"
  "totalSupply genesis0 = Fin 2400000"
  "stakingPool genesis0 = Map.empty"
  "chain genesis0 = [createGenesisBlock demo_runtime (Fin 0)]"
  by (simp_all add: genesis0_def CosmosBlockchain_new_def initializeGenesisValidators_def
      genesisValidators_def)

lemma genesis0_select:
  "selectValidator (Fin 0) genesis0
     = Inr (''validator1'', Validator_new ''validator1'' (Fin 1000000))"
  by (simp add: selectValidator_def activeValidators_def genesis0_validators Validator_new_def)

lemma genesis0_pending_select:
  "selectValidator (Fin 0) (genesis0\<lparr>pendingTransactions := p\<rparr>)
     = Inr (''validator1'', Validator_new ''validator1'' (Fin 1000000))"
  "chain (genesis0\<lparr>pendingTransactions := p\<rparr>) \<noteq> []"
  by (simp_all add: genesis0_select genesis0_fields)

lemma reachable_genesis0: "reachable demo_runtime genesis0"
  unfolding genesis0_def by (rule reachable_new)

lemma validator1_only_validators:
  "validators validator1_only =
     [(''validator1'', Validator_new ''validator1'' (Fin 1000000)),
      (''validator2'', (Validator_new ''validator2'' (Fin 800000))\<lparr>stake := Fin 0\<rparr>),
      (''validator3'', (Validator_new ''validator3'' (Fin 600000))\<lparr>stake := Fin 0\<rparr>)]"
  by (simp add: validator1_only_def delegate_validators delegate_getBalance genesis0_validators
      genesis0_balances map_of_mutate mutate_def increaseStake_def Validator_new_def)

lemma validator1_only_alice: "getBalance validator1_only ''alice'' = Fin 1400000"
  by (simp add: validator1_only_def delegate_validators delegate_getBalance genesis0_validators
      genesis0_balances map_of_mutate)

lemma no_stake_validators:
  "validators no_stake =
     [(''validator1'', (Validator_new ''validator1'' (Fin 1000000))\<lparr>stake := Fin 0\<rparr>),
      (''validator2'', (Validator_new ''validator2'' (Fin 800000))\<lparr>stake := Fin 0\<rparr>),
      (''validator3'', (Validator_new ''validator3'' (Fin 600000))\<lparr>stake := Fin 0\<rparr>)]"
  by (simp add: no_stake_def delegate_validators validator1_only_validators
      validator1_only_alice mutate_def increaseStake_def Validator_new_def)

lemma overdrawn_state:
  "getBalance overdrawn ''validator2'' = Fin (- 800000)"
  "validators overdrawn =
     mutate ''validator1'' (\<lambda>w. w\<lparr>totalBlocks := totalBlocks w + 1\<rparr>) (validators genesis0)"
  by (simp_all add: overdrawn_def spend1_def spend2_def createTransaction_signed
      mine_success [OF genesis0_pending_select]
      genesis0_fields isTransactionValid_def genesis0_balances
      settle_transfer_balance settle_reward_balance Validator_new_def)

lemma tiny_value: "tiny = Fin (6189700196426901 / 2 ^ 89)"
  unfolding tiny_def by (subst rnd_at [where e = "- 37"]) (simp_all add: roundHalfEven_def Let_def)

lemma tiny_absorbed:
  "fsub (Fin 800000) tiny = Fin 800000"
  "fadd (Fin 1000000) tiny = Fin 1000000"
  unfolding tiny_value fsub_Fin fadd.simps
  by (subst rnd_at [where e = 19], simp_all add: roundHalfEven_def Let_def)+

lemma tiny_kept: "fadd (Fin 0) tiny = tiny"
  unfolding tiny_value fadd.simps
  by (subst rnd_at [where e = "- 37"]) (simp_all add: roundHalfEven_def Let_def)

lemma tiny_positive:
  "flt (Fin 0) tiny" "\<not> flt (Fin 800000) tiny" "tiny \<noteq> Fin 0"
  unfolding tiny_value by simp_all

lemma big_rnd:
  "rnd (2 ^ 60) = Fin (2 ^ 60)"
  "rnd (2 ^ 60 + 1000000) = Fin (2 ^ 60 + 999936)"
  "rnd (2 ^ 60 + 2400000) = Fin (2 ^ 60 + 2400000)"
  "rnd (2 ^ 60 + 999936 + 100) = Fin (2 ^ 60 + 999936)"
  "rnd (2 ^ 60 + 2400000 + 100) = Fin (2 ^ 60 + 2400000)"
  by (subst rnd_at [where e = 60], simp_all add: roundHalfEven_def Let_def)+

lemma mint_valid: "isValid mint" "fromAddress mint = None" "toAddress mint = ''validator1''"
  "amount mint = Fin (2 ^ 60)"
  by (simp_all add: mint_def isValid_def)

lemma inflated_state:
  "pendingTransactions inflated = []"
  "chain inflated \<noteq> []"
  "miningReward inflated = Fin 100"
  "totalSupply inflated = Fin (2 ^ 60 + 2400000)"
  "getBalance inflated ''validator1'' = Fin (2 ^ 60 + 999936)"
  "validators inflated =
     mutate ''validator1'' (\<lambda>w. w\<lparr>totalBlocks := totalBlocks w + 1\<rparr>) (validators genesis0)"
  by (simp_all add: inflated_def createTransaction_def mint_valid
      mine_success [OF genesis0_pending_select]
      genesis0_fields isTransactionValid_def genesis0_balances
      settle_reward_balance settle_totalSupply Validator_new_def big_rnd [simplified])

lemma inflated_select:
  "selectValidator (Fin 0) inflated
     = Inr (''validator1'', (Validator_new ''validator1'' (Fin 1000000))\<lparr>totalBlocks := 1\<rparr>)"
  by (simp add: selectValidator_def activeValidators_def inflated_state genesis0_validators
      mutate_def Validator_new_def)

lemma reachable_inflated: "reachable demo_runtime inflated"
  unfolding inflated_def
  by (intro reachable_mine reachable_createTransaction reachable_genesis0) simp_all

lemma reachable_overdrawn: "reachable demo_runtime overdrawn"
  unfolding overdrawn_def
  by (intro reachable_mine reachable_createTransaction reachable_genesis0) simp_all

lemma tenth: "rnd (1 / 10) = Fin (3602879701896397 / 2 ^ 55)"
  by (subst rnd_at [where e = "- 4"]) (simp_all add: roundHalfEven_def Let_def)

lemma fifth: "rnd (1 / 5) = Fin (3602879701896397 / 2 ^ 54)"
  by (subst rnd_at [where e = "- 3"]) (simp_all add: roundHalfEven_def Let_def)

lemma rounded_debit:
  "fsub (fsub (Fin 800000) (rnd (1 / 10))) (rnd (1 / 5)) = Fin (6871945096619623 / 2 ^ 33)"
  unfolding tenth fifth fsub_Fin
  apply (subst rnd_at [where e = 19], simp_all add: roundHalfEven_def Let_def)
  apply (subst rnd_at [where e = 19], simp_all add: roundHalfEven_def Let_def)
  done

lemma rounded_debit_differs:
  "fsub (Fin 800000) (fadd (rnd (1 / 10)) (rnd (1 / 5))) = Fin (6871945096619622 / 2 ^ 33)"
  unfolding tenth fifth fsub_Fin fadd.simps
  apply (subst rnd_at [where e = "- 2"], simp_all add: roundHalfEven_def Let_def)
  apply (subst rnd_at [where e = 19], simp_all add: roundHalfEven_def Let_def)
  done

section \<open>The claims\<close>

text \<open>
  Claim C1, as amended. In a block that \<open>minePendingTransactions\<close> returns, the
  validator of the block is the selected validator, the balances after the call are
  those the settlement loop leaves after the last transaction of the block, and the
  iteration for a transaction with an origin does three updates in sequence, each on
  the balance the one before has left: the origin's balance \<open>b\<close> becomes
  \<open>(b - amount) - fee\<close>, then the destination's becomes its balance plus the amount,
  then the validator's becomes its balance plus the fee, each operation rounded to a
  double (and read back through \<open>|| 0\<close>). When origin, destination and validator are
  three different addresses, each of the three balances has had one of these updates.
  When moreover the balances, the amount and the fee are integers and every result is
  below \<open>2 ^ 53\<close> in magnitude, nothing is rounded: the origin has lost exactly amount
  plus fee, the destination has gained exactly the amount and the validator exactly the
  fee.
\<close>

theorem mine_settles_transfer:
  assumes "minePendingTransactions rt r t1 t2 s = (Inr block, s')"
    and "i < length (transactions block)"
    and "fromAddress (transactions block ! i) = Some from"
  shows "(\<exists>key v. selectValidator r s = Inr (key, v) \<and> validator block = address v)
    \<and> (\<forall>x. getBalance s' x
            = getBalance (settled (validator block) s (transactions block)
                (length (transactions block))) x)
    \<and> (let tx = transactions block ! i; va = validator block; to = toAddress tx;
            b = getBalance (settled va s (transactions block) i);
            a = getBalance (settled va s (transactions block) (Suc i));
            b1 = (\<lambda>y. if y = from then orZero (fsub (fsub (b from) (amount tx)) (fee tx))
                       else b y);
            b2 = (\<lambda>y. if y = to then orZero (fadd (b1 to) (amount tx)) else b1 y)
        in (\<forall>x. a x = (if x = va then orZero (fadd (b2 va) (fee tx)) else b2 x))
           \<and> (from \<noteq> to \<and> from \<noteq> va \<and> to \<noteq> va \<longrightarrow>
                 a from = orZero (fsub (fsub (b from) (amount tx)) (fee tx))
                 \<and> a to = orZero (fadd (b to) (amount tx))
                 \<and> a va = orZero (fadd (b va) (fee tx)))
           \<and> (\<forall>n m f p q.
                 from \<noteq> to \<and> from \<noteq> va \<and> to \<noteq> va
                 \<and> b from = Fin (of_int n) \<and> amount tx = Fin (of_int m)
                 \<and> fee tx = Fin (of_int f) \<and> b to = Fin (of_int p) \<and> b va = Fin (of_int q)
                 \<and> \<bar>n - m\<bar> < 2 ^ 53 \<and> \<bar>n - m - f\<bar> < 2 ^ 53
                 \<and> \<bar>p + m\<bar> < 2 ^ 53 \<and> \<bar>q + f\<bar> < 2 ^ 53
                 \<longrightarrow> a from = Fin (of_int (n - (m + f)))
                     \<and> a to = Fin (of_int (p + m))
                     \<and> a va = Fin (of_int (q + f))))"
proof -
  from mine_Inr [OF assms(1)] obtain key v
    where sel: "selectValidator r s = Inr (key, v)" and ne: "chain s \<noteq> []" by blast
  from mine_success [OF sel ne, of rt t1 t2] assms(1)
  have va: "validator block = address v"
    and final: "\<forall>x. getBalance s' x
      = getBalance (foldl (settleTransaction (validator block)) s (transactions block)) x"
    by (auto simp: Block_new_def)
  note step = transfer_step [OF assms(2,3), of "validator block" s, unfolded Let_def]
  note exact = transfer_step_exact [OF assms(2,3), of "validator block" s]
  have A: "\<exists>key v. selectValidator r s = Inr (key, v) \<and> validator block = address v"
    using sel va by blast
  have B: "\<forall>x. getBalance s' x
      = getBalance (settled (validator block) s (transactions block)
          (length (transactions block))) x"
    using final by (simp add: settled_all)
  show ?thesis
    unfolding Let_def
    apply (intro conjI)
        apply (rule A)
       apply (rule B)
      apply (simp add: step)
     apply (auto simp: step)[1]
    apply (intro allI impI)
    apply (elim conjE)
    apply (intro conjI)
      apply (rule exact; assumption)
     apply (rule exact; assumption)
    apply (rule exact; assumption)
    done
qed

theorem mine_settles_transfer_witness:
  "\<exists>block s'.
      minePendingTransactions demo_runtime (Fin 0) (Fin 2) (Fin 3)
          (snd (createTransaction transfer genesis0)) = (Inr block, s')
      \<and> validator block = ''validator1'' \<and> transactions block ! 0 = transfer
      \<and> getBalance (settled ''validator1'' (snd (createTransaction transfer genesis0))
            (transactions block) (Suc 0)) ''validator2'' = Fin 799949
      \<and> getBalance (settled ''validator1'' (snd (createTransaction transfer genesis0))
            (transactions block) (Suc 0)) ''bob'' = Fin 50
      \<and> getBalance (settled ''validator1'' (snd (createTransaction transfer genesis0))
            (transactions block) (Suc 0)) ''validator1'' = Fin 1000001
      \<and> getBalance s' ''validator2'' = Fin 799949"
proof -
  define S where "S = snd (createTransaction transfer genesis0)"
  have S: "S = genesis0\<lparr>pendingTransactions := [transfer]\<rparr>"
    by (simp add: S_def transfer_def createTransaction_signed genesis0_fields)
  have sel: "selectValidator (Fin 0) S
      = Inr (''validator1'', Validator_new ''validator1'' (Fin 1000000))"
    and ne: "chain S \<noteq> []"
    unfolding S by (rule genesis0_pending_select)+
  define reward where
    "reward = Transaction_new demo_runtime None ''validator1'' (Fin 100) (Fin 0) (Fin 2)"
  have tf: "fromAddress transfer = Some ''validator2''" "toAddress transfer = ''bob''"
    "amount transfer = Fin 50" "fee transfer = Fin 1"
    by (simp_all add: transfer_def)
  have txs: "filter (isTransactionValid S)
      (pendingTransactions S @ [Transaction_new demo_runtime None
         (address (Validator_new ''validator1'' (Fin 1000000))) (miningReward S) (Fin 0) (Fin 2)])
      = [transfer, reward]"
    by (simp add: S isTransactionValid_def tf genesis0_balances genesis0_fields reward_def
        Validator_new_def)
  from mine_success [OF sel ne, of demo_runtime "Fin 2" "Fin 3", unfolded txs]
  obtain block s' where run:
    "minePendingTransactions demo_runtime (Fin 0) (Fin 2) (Fin 3) S = (Inr block, s')"
    and block: "transactions block = [transfer, reward]" "validator block = ''validator1''"
    by (simp add: Block_new_def Validator_new_def)
  note t = mine_settles_transfer [OF run, of 0 "''validator2''", unfolded Let_def block]
  have pre: "0 < length [transfer, reward]" "fromAddress ([transfer, reward] ! 0) = Some ''validator2''"
    by (simp_all add: tf)
  note t' = t [OF pre]
  have b: "getBalance S x = getBalance genesis0 x" for x
    by (simp add: S)
  from t' have ex: "\<forall>n m f p q.
      ''validator2'' \<noteq> toAddress ([transfer, reward] ! 0) \<and> ''validator2'' \<noteq> ''validator1''
      \<and> toAddress ([transfer, reward] ! 0) \<noteq> ''validator1''
      \<and> getBalance (settled ''validator1'' S [transfer, reward] 0) ''validator2'' = Fin (of_int n)
      \<and> amount ([transfer, reward] ! 0) = Fin (of_int m)
      \<and> fee ([transfer, reward] ! 0) = Fin (of_int f)
      \<and> getBalance (settled ''validator1'' S [transfer, reward] 0)
           (toAddress ([transfer, reward] ! 0)) = Fin (of_int p)
      \<and> getBalance (settled ''validator1'' S [transfer, reward] 0) ''validator1'' = Fin (of_int q)
      \<and> \<bar>n - m\<bar> < 2 ^ 53 \<and> \<bar>n - m - f\<bar> < 2 ^ 53 \<and> \<bar>p + m\<bar> < 2 ^ 53 \<and> \<bar>q + f\<bar> < 2 ^ 53
      \<longrightarrow> getBalance (settled ''validator1'' S [transfer, reward] (Suc 0)) ''validator2''
            = Fin (of_int (n - (m + f)))
          \<and> getBalance (settled ''validator1'' S [transfer, reward] (Suc 0))
              (toAddress ([transfer, reward] ! 0)) = Fin (of_int (p + m))
          \<and> getBalance (settled ''validator1'' S [transfer, reward] (Suc 0)) ''validator1''
              = Fin (of_int (q + f))"
    by blast
  from ex [rule_format, of 800000 50 1 0 1000000]
  have step: "getBalance (settled ''validator1'' S [transfer, reward] (Suc 0)) ''validator2''
      = Fin 799949"
    "getBalance (settled ''validator1'' S [transfer, reward] (Suc 0)) ''bob'' = Fin 50"
    "getBalance (settled ''validator1'' S [transfer, reward] (Suc 0)) ''validator1''
      = Fin 1000001"
    by (simp_all add: b tf genesis0_balances)
  from t' have "getBalance s' ''validator2''
      = getBalance (settled ''validator1'' S [transfer, reward] (length [transfer, reward]))
          ''validator2''"
    by blast
  also have "\<dots> = Fin 799949"
    by (simp add: settled_def S genesis0_balances settle_transfer_balance settle_reward_balance
        tf reward_def)
  finally have fin: "getBalance s' ''validator2'' = Fin 799949" .
  from run block step fin show ?thesis
    unfolding S_def by auto
qed

text \<open>
  The claim as first stated fails when roles coincide: a signed transfer of 50 with
  fee 1 from \<open>validator2\<close> to itself, submitted after the constructor and mined
  by \<open>validator1\<close>, leaves \<open>validator2\<close> with 799999 and not 800000 - 51. (It also
  fails by rounding, as \<open>rounded_debit\<close> shows for the amount 0.1 and the fee 0.2.)
\<close>

theorem settle_self_transfer_counterexample:
  "fromAddress self_transfer = Some ''validator2''
   \<and> getBalance (settleTransaction ''validator1'' genesis0 self_transfer) ''validator2''
       \<noteq> fsub (getBalance genesis0 ''validator2'')
           (fadd (amount self_transfer) (fee self_transfer))
   \<and> getBalance genesis0 ''validator2'' = Fin 800000
   \<and> getBalance (snd (minePendingTransactions demo_runtime (Fin 0) (Fin 2) (Fin 3)
         (snd (createTransaction self_transfer genesis0)))) ''validator2'' = Fin 799999"
  by (simp add: self_transfer_def createTransaction_signed
      mine_getBalance [OF genesis0_pending_select]
      genesis0_fields isTransactionValid_def genesis0_balances
      settle_transfer_balance settle_reward_balance Validator_new_def)

text \<open>
  Claim C2 (balances never negative) fails on the code. The filter of
  \<open>minePendingTransactions\<close> tests every pending transaction against the balances
  before the block, so two transfers that each spend the whole balance of one origin
  are both settled: after the constructor, two signed transfers of 800000 from
  \<open>validator2\<close> and one block, the balance of \<open>validator2\<close> is - 800000.
\<close>

theorem double_spend_negative_balance:
  "getBalance (snd (minePendingTransactions demo_runtime (Fin 0) (Fin 3) (Fin 4)
      (snd (createTransaction spend2 (snd (createTransaction spend1 genesis0))))))
      ''validator2'' = Fin (- 800000)"
  by (simp add: spend1_def spend2_def createTransaction_signed
      mine_getBalance [OF genesis0_pending_select]
      genesis0_fields isTransactionValid_def genesis0_balances
      settle_transfer_balance settle_reward_balance Validator_new_def)

text \<open>
  Claim C3, as amended. \<open>delegate\<close> throws the unknown-validator error when the
  validator address is not a key of \<open>validators\<close>, and (the validator being known) the
  insufficient-balance error when the delegator's balance is below the amount; a call
  that throws leaves the state as it was. Otherwise it returns, and the delegator's
  staking entry for the validator (absent counts as \<open>0\<close>) and the validator's stake
  have become their sum with the amount and the delegator's balance its difference
  with the amount, each rounded to a double. When these values are integers and the
  results are below \<open>2 ^ 53\<close> in magnitude, entry and stake have grown by exactly the
  amount and the balance has shrunk by exactly the amount.
\<close>

theorem delegate_outcomes:
  "(map_of (validators s) va = None \<longrightarrow> delegate d va a s = (Inl UnknownValidator, s))
   \<and> (map_of (validators s) va \<noteq> None \<and> flt (getBalance s d) a
        \<longrightarrow> delegate d va a s = (Inl InsufficientBalance, s))
   \<and> (map_of (validators s) va = Some v \<and> \<not> flt (getBalance s d) a
        \<longrightarrow> (\<exists>s'. delegate d va a s = (Inr (), s')
              \<and> getStakingInfo s' d va
                  = Some (fadd (case getStakingInfo s d va of None \<Rightarrow> Fin 0
                                | Some c \<Rightarrow> orZero c) a)
              \<and> map_of (validators s') va = Some (v\<lparr>stake := fadd (stake v) a\<rparr>)
              \<and> getBalance s' d = orZero (fsub (getBalance s d) a)
              \<and> (\<forall>e k b n.
                    (case getStakingInfo s d va of None \<Rightarrow> Fin 0 | Some c \<Rightarrow> orZero c)
                      = Fin (of_int e)
                    \<and> stake v = Fin (of_int k) \<and> getBalance s d = Fin (of_int b)
                    \<and> a = Fin (of_int n)
                    \<and> \<bar>e + n\<bar> < 2 ^ 53 \<and> \<bar>k + n\<bar> < 2 ^ 53 \<and> \<bar>b - n\<bar> < 2 ^ 53
                    \<longrightarrow> getStakingInfo s' d va = Some (Fin (of_int (e + n)))
                        \<and> map_of (validators s') va = Some (v\<lparr>stake := Fin (of_int (k + n))\<rparr>)
                        \<and> getBalance s' d = Fin (of_int (b - n)))))"
proof (intro conjI impI)
  assume "map_of (validators s) va = None"
  then show "delegate d va a s = (Inl UnknownValidator, s)"
    by (simp add: delegate_def)
next
  assume "map_of (validators s) va \<noteq> None \<and> flt (getBalance s d) a"
  then show "delegate d va a s = (Inl InsufficientBalance, s)"
    by (simp add: delegate_def)
next
  assume h: "map_of (validators s) va = Some v \<and> \<not> flt (getBalance s d) a"
  then have h1: "map_of (validators s) va = Some v" and h2: "\<not> flt (getBalance s d) a"
    by simp_all
  from delegate_success [OF h1 h2] obtain s' where s': "delegate d va a s = (Inr (), s')"
    and r: "getBalance s' d = orZero (fsub (getBalance s d) a)"
      "getStakingInfo s' d va
         = Some (fadd (case getStakingInfo s d va of None \<Rightarrow> Fin 0 | Some c \<Rightarrow> orZero c) a)"
      "map_of (validators s') va = Some (v\<lparr>stake := fadd (stake v) a\<rparr>)"
    by blast
  note exact = delegate_success_exact [OF h1 h2, unfolded s' snd_conv]
  show "\<exists>s'. delegate d va a s = (Inr (), s')
              \<and> getStakingInfo s' d va
                  = Some (fadd (case getStakingInfo s d va of None \<Rightarrow> Fin 0
                                | Some c \<Rightarrow> orZero c) a)
              \<and> map_of (validators s') va = Some (v\<lparr>stake := fadd (stake v) a\<rparr>)
              \<and> getBalance s' d = orZero (fsub (getBalance s d) a)
              \<and> (\<forall>e k b n.
                    (case getStakingInfo s d va of None \<Rightarrow> Fin 0 | Some c \<Rightarrow> orZero c)
                      = Fin (of_int e)
                    \<and> stake v = Fin (of_int k) \<and> getBalance s d = Fin (of_int b)
                    \<and> a = Fin (of_int n)
                    \<and> \<bar>e + n\<bar> < 2 ^ 53 \<and> \<bar>k + n\<bar> < 2 ^ 53 \<and> \<bar>b - n\<bar> < 2 ^ 53
                    \<longrightarrow> getStakingInfo s' d va = Some (Fin (of_int (e + n)))
                        \<and> map_of (validators s') va = Some (v\<lparr>stake := Fin (of_int (k + n))\<rparr>)
                        \<and> getBalance s' d = Fin (of_int (b - n)))"
    apply (rule exI [of _ s'])
    apply (intro conjI)
        apply (rule s')
       apply (rule r)
      apply (rule r)
     apply (rule r)
    apply (intro allI impI)
    apply (elim conjE)
    apply (intro conjI)
      apply (rule exact; assumption)
     apply (rule exact; assumption)
    apply (rule exact; assumption)
    done
qed

theorem delegate_outcomes_witness:
  "delegate ''validator2'' ''nobody'' (Fin 10) genesis0 = (Inl UnknownValidator, genesis0)
   \<and> delegate ''validator2'' ''validator1'' (Fin 800001) genesis0
       = (Inl InsufficientBalance, genesis0)
   \<and> (\<exists>s'. delegate ''validator2'' ''validator1'' (Fin 100) genesis0 = (Inr (), s')
         \<and> getStakingInfo s' ''validator2'' ''validator1'' = Some (Fin 100)
         \<and> map_of (validators s') ''validator1''
             = Some ((Validator_new ''validator1'' (Fin 1000000))\<lparr>stake := Fin 1000100\<rparr>)
         \<and> getBalance s' ''validator2'' = Fin 799900)"
proof -
  note t = delegate_outcomes [where s = genesis0 and d = "''validator2''"]
  have 1: "delegate ''validator2'' ''nobody'' (Fin 10) genesis0 = (Inl UnknownValidator, genesis0)"
    using t [where va = "''nobody''" and a = "Fin 10"] by (simp add: genesis0_validators)
  have 2: "delegate ''validator2'' ''validator1'' (Fin 800001) genesis0
       = (Inl InsufficientBalance, genesis0)"
    using t [where va = "''validator1''" and a = "Fin 800001"]
    by (simp add: genesis0_validators genesis0_balances)
  from t [where va = "''validator1''" and a = "Fin 100"
      and v = "Validator_new ''validator1'' (Fin 1000000)"]
  obtain s' where s': "delegate ''validator2'' ''validator1'' (Fin 100) genesis0 = (Inr (), s')"
    and ex: "\<forall>e k b n.
        (case getStakingInfo genesis0 ''validator2'' ''validator1'' of None \<Rightarrow> Fin 0
         | Some c \<Rightarrow> orZero c) = Fin (of_int e)
        \<and> stake (Validator_new ''validator1'' (Fin 1000000)) = Fin (of_int k)
        \<and> getBalance genesis0 ''validator2'' = Fin (of_int b) \<and> Fin 100 = Fin (of_int n)
        \<and> \<bar>e + n\<bar> < 2 ^ 53 \<and> \<bar>k + n\<bar> < 2 ^ 53 \<and> \<bar>b - n\<bar> < 2 ^ 53
        \<longrightarrow> getStakingInfo s' ''validator2'' ''validator1'' = Some (Fin (of_int (e + n)))
            \<and> map_of (validators s') ''validator1''
                = Some ((Validator_new ''validator1'' (Fin 1000000))\<lparr>stake := Fin (of_int (k + n))\<rparr>)
            \<and> getBalance s' ''validator2'' = Fin (of_int (b - n))"
    by (auto simp: genesis0_validators genesis0_balances)
  from ex [rule_format, of 0 1000000 800000 100]
  have "getStakingInfo s' ''validator2'' ''validator1'' = Some (Fin 100)
         \<and> map_of (validators s') ''validator1''
             = Some ((Validator_new ''validator1'' (Fin 1000000))\<lparr>stake := Fin 1000100\<rparr>)
         \<and> getBalance s' ''validator2'' = Fin 799900"
    by (simp add: getStakingInfo_def genesis0_fields genesis0_balances Validator_new_def)
  with 1 2 s' show ?thesis by blast
qed

text \<open>
  The claim as first stated fails by rounding: delegating the amount \<open>1e-11\<close> from
  \<open>validator2\<close> to \<open>validator1\<close> after the constructor succeeds and leaves the balance
  800000 and the stake 1000000 as they were, while the staking entry becomes the amount.
\<close>

theorem delegate_tiny_counterexample:
  "fst (delegate ''validator2'' ''validator1'' tiny genesis0) = Inr ()
   \<and> flt (Fin 0) tiny
   \<and> getBalance (snd (delegate ''validator2'' ''validator1'' tiny genesis0)) ''validator2''
       = getBalance genesis0 ''validator2''
   \<and> map_of (validators (snd (delegate ''validator2'' ''validator1'' tiny genesis0)))
         ''validator1''
       = map_of (validators genesis0) ''validator1''
   \<and> getStakingInfo (snd (delegate ''validator2'' ''validator1'' tiny genesis0))
         ''validator2'' ''validator1'' = Some tiny"
  by (simp add: delegate_def Let_def genesis0_validators genesis0_balances genesis0_fields
      tiny_positive tiny_absorbed tiny_kept getStakingInfo_def mutate_def increaseStake_def
      Validator_new_def)

text \<open>
  Claim C4. When no validator is active with a positive stake,
  \<open>minePendingTransactions\<close> throws the no-active-validator error and leaves the whole
  state (pending pool, chain, balances, total supply, staking pool, validators) as it was.
\<close>

theorem mine_no_active_validators:
  assumes "\<forall>e \<in> set (validators s). \<not> (isActive (snd e) \<and> flt (Fin 0) (stake (snd e)))"
  shows "minePendingTransactions rt r t1 t2 s = (Inl NoActiveValidators, s)"
proof -
  have "activeValidators s = []"
    using assms by (auto simp: activeValidators_def filter_empty_conv)
  then show ?thesis
    by (simp add: minePendingTransactions_def selectValidator_def)
qed

theorem mine_no_active_validators_witness:
  "minePendingTransactions demo_runtime (Fin 0) (Fin 1) (Fin 2) no_stake
     = (Inl NoActiveValidators, no_stake)"
  using mine_no_active_validators [of no_stake demo_runtime "Fin 0" "Fin 1" "Fin 2"]
  by (simp add: no_stake_validators)

text \<open>
  Claim C5. In every reachable state each block after the first carries the hash of the
  block before it and its own position as index, and the first block is the genesis
  block: index \<open>0\<close>, previous hash \<open>0\<close>, no transactions, validator \<open>genesis\<close>.
\<close>

theorem reachable_chain_linked:
  assumes "reachable rt s"
  shows "(\<forall>i. 0 < i \<and> i < length (chain s) \<longrightarrow>
            previousHash (chain s ! i) = blockHash (chain s ! (i - 1)) \<and> index (chain s ! i) = i)
         \<and> chain s \<noteq> [] \<and> index (chain s ! 0) = 0 \<and> previousHash (chain s ! 0) = ''0''
         \<and> transactions (chain s ! 0) = [] \<and> validator (chain s ! 0) = ''genesis''"
  using reachable_inv [OF assms] by (simp add: chain_inv_def)

theorem reachable_chain_linked_witness:
  "length (chain after_first_block) = 2
   \<and> previousHash (chain after_first_block ! 1) = blockHash (chain after_first_block ! 0)
   \<and> index (chain after_first_block ! 1) = 1
   \<and> index (chain after_first_block ! 0) = 0
   \<and> validator (chain after_first_block ! 0) = ''genesis''"
proof -
  have r: "reachable demo_runtime after_first_block"
    unfolding after_first_block_def
    by (rule reachable_mine [OF reachable_genesis0]) simp_all
  have len: "length (chain after_first_block) = 2"
    by (simp add: after_first_block_def mine_chain [OF genesis0_select] genesis0_fields)
  from reachable_chain_linked [OF r] len show ?thesis by simp
qed

text \<open>
  Claim C6, as amended. On a non-empty chain (the constructor makes it so and no
  operation shortens it) with an empty pending pool and some active validator of
  positive stake, \<open>minePendingTransactions\<close> returns a block whose only transaction is
  the reward: no origin, the selected validator as destination, \<open>miningReward\<close> as
  amount, fee \<open>0\<close>. The total supply and the validator's balance become their sums
  with \<open>miningReward\<close>, rounded to a double, no other balance changes, and the pending
  pool is empty afterwards. For a reward that is not negative no balance has shrunk,
  the validator's balance being a double, as every value of the program is. When total
  supply, balance and reward are integers and the sums are below \<open>2 ^ 53\<close> in
  magnitude, both grow by exactly \<open>miningReward\<close>.
\<close>

theorem mine_empty_pool:
  assumes "pendingTransactions s = []" "chain s \<noteq> []"
    and "\<exists>e \<in> set (validators s). isActive (snd e) \<and> flt (Fin 0) (stake (snd e))"
  shows "\<exists>key v block s' reward.
           selectValidator r s = Inr (key, v)
           \<and> minePendingTransactions rt r t1 t2 s = (Inr block, s')
           \<and> validator block = address v
           \<and> transactions block = [reward]
           \<and> fromAddress reward = None \<and> toAddress reward = address v
           \<and> amount reward = miningReward s \<and> fee reward = Fin 0
           \<and> totalSupply s' = fadd (totalSupply s) (miningReward s)
           \<and> getBalance s' (address v)
               = orZero (fadd (getBalance s (address v)) (miningReward s))
           \<and> (\<forall>x. x \<noteq> address v \<longrightarrow> getBalance s' x = getBalance s x)
           \<and> pendingTransactions s' = []
           \<and> (fle (Fin 0) (miningReward s) \<and> isDouble (getBalance s (address v))
                 \<longrightarrow> (\<forall>x. fle (getBalance s x) (getBalance s' x)))
           \<and> (\<forall>T b m.
                 totalSupply s = Fin (of_int T) \<and> getBalance s (address v) = Fin (of_int b)
                 \<and> miningReward s = Fin (of_int m)
                 \<and> \<bar>T + m\<bar> < 2 ^ 53 \<and> \<bar>b + m\<bar> < 2 ^ 53
                 \<longrightarrow> totalSupply s' = Fin (of_int (T + m))
                     \<and> getBalance s' (address v) = Fin (of_int (b + m))
                     \<and> (0 \<le> m \<longrightarrow> (\<forall>x. fle (getBalance s x) (getBalance s' x))))"
proof -
  from assms(3) have "activeValidators s \<noteq> []"
    by (auto simp: activeValidators_def filter_empty_conv)
  then obtain key v where sel: "selectValidator r s = Inr (key, v)"
    using selectValidator_active [of s r] by (metis surj_pair)
  define reward where
    "reward = Transaction_new rt None (address v) (miningReward s) (Fin 0) t1"
  have rw: "fromAddress reward = None" "toAddress reward = address v"
    "amount reward = miningReward s" "fee reward = Fin 0"
    by (simp_all add: reward_def)
  have txs: "filter (isTransactionValid s) (pendingTransactions s @ [reward]) = [reward]"
    by (simp add: assms(1) isTransactionValid_def rw)
  from mine_success [OF sel assms(2), of rt t1 t2, folded reward_def, unfolded txs]
  obtain block s' where run: "minePendingTransactions rt r t1 t2 s = (Inr block, s')"
    and blk: "validator block = address v" "transactions block = [reward]"
    and bal: "\<And>x. getBalance s' x = getBalance (settleTransaction (address v) s reward) x"
    and sup: "totalSupply s' = totalSupply (settleTransaction (address v) s reward)"
    and pend: "pendingTransactions s' = []"
    by (simp add: Block_new_def)
  have b: "getBalance s' x
      = (if x = address v then orZero (fadd (getBalance s x) (miningReward s))
         else getBalance s x)" for x
    by (simp add: bal settle_reward_balance rw)
  have t: "totalSupply s' = fadd (totalSupply s) (miningReward s)"
    by (simp add: sup settle_totalSupply rw)
  have exact: "totalSupply s' = Fin (of_int (T + m))
      \<and> getBalance s' (address v) = Fin (of_int (c + m))
      \<and> (0 \<le> m \<longrightarrow> (\<forall>x. fle (getBalance s x) (getBalance s' x)))"
    if h: "totalSupply s = Fin (of_int T)" "getBalance s (address v) = Fin (of_int c)"
      "miningReward s = Fin (of_int m)" "\<bar>T + m\<bar> < 2 ^ 53" "\<bar>c + m\<bar> < 2 ^ 53" for T c m
  proof -
    have 1: "fadd (Fin (of_int T)) (Fin (of_int m)) = Fin (of_int (T + m))"
      using h(4) by (rule fadd_int)
    have 2: "fadd (Fin (of_int c)) (Fin (of_int m)) = Fin (of_int (c + m))"
      using h(5) by (rule fadd_int)
    have ts: "totalSupply s' = Fin (of_int (T + m))"
      by (simp only: t h(1,3) 1)
    have bv: "getBalance s' (address v) = Fin (of_int (c + m))"
      by (simp only: b simp_thms if_True h(2,3) 2 orZero_simps)
    have "fle (getBalance s x) (getBalance s' x)" if "0 \<le> m" for x
    proof (cases "x = address v")
      case True
      with that show ?thesis by (simp add: bv h(2))
    next
      case False
      then show ?thesis by (simp add: b fle_refl)
    qed
    with ts bv show ?thesis by blast
  qed
  have mono: "fle (getBalance s x) (getBalance s' x)"
    if h: "fle (Fin 0) (miningReward s)" "isDouble (getBalance s (address v))" for x
  proof (cases "x = address v")
    case True
    from fadd_nonneg_not_below [OF h getBalance_not_NaN] show ?thesis
      by (simp add: b True)
  next
    case False
    then show ?thesis by (simp add: b fle_refl)
  qed
  show ?thesis
    apply (rule exI [of _ key], rule exI [of _ v], rule exI [of _ block], rule exI [of _ s'],
        rule exI [of _ reward])
    apply (intro conjI)
                 apply (rule sel)
                apply (rule run)
               apply (rule blk)
              apply (rule blk)
             apply (rule rw)
            apply (rule rw)
           apply (rule rw)
          apply (rule rw)
         apply (rule t)
        apply (simp add: b)
       apply (simp add: b)
      apply (rule pend)
    using mono apply blast
    using exact apply blast
    done
qed

theorem mine_empty_pool_witness:
  "\<exists>block s' reward.
      minePendingTransactions demo_runtime (Fin 0) (Fin 1) (Fin 2) genesis0 = (Inr block, s')
      \<and> validator block = ''validator1''
      \<and> transactions block = [reward] \<and> fromAddress reward = None
      \<and> toAddress reward = ''validator1'' \<and> amount reward = Fin 100 \<and> fee reward = Fin 0
      \<and> totalSupply s' = Fin 2400100 \<and> getBalance s' ''validator1'' = Fin 1000100
      \<and> getBalance s' ''validator2'' = Fin 800000
      \<and> pendingTransactions s' = []
      \<and> (\<forall>x. fle (getBalance genesis0 x) (getBalance s' x))"
proof -
  have act: "\<exists>e \<in> set (validators genesis0). isActive (snd e) \<and> flt (Fin 0) (stake (snd e))"
    by (simp add: genesis0_validators Validator_new_def)
  have ne: "chain genesis0 \<noteq> []" by (simp add: genesis0_fields)
  from mine_empty_pool [OF genesis0_fields(1) ne act, of "Fin 0" demo_runtime "Fin 1" "Fin 2"]
  obtain key v block s' reward where
    sel: "selectValidator (Fin 0) genesis0 = Inr (key, v)"
    and run: "minePendingTransactions demo_runtime (Fin 0) (Fin 1) (Fin 2) genesis0
        = (Inr block, s')"
    and f: "validator block = address v" "transactions block = [reward]"
      "fromAddress reward = None" "toAddress reward = address v"
      "amount reward = miningReward genesis0" "fee reward = Fin 0"
      "pendingTransactions s' = []"
    and other: "\<forall>x. x \<noteq> address v \<longrightarrow> getBalance s' x = getBalance genesis0 x"
    and mono: "fle (Fin 0) (miningReward genesis0) \<and> isDouble (getBalance genesis0 (address v))
        \<longrightarrow> (\<forall>x. fle (getBalance genesis0 x) (getBalance s' x))"
    and ex: "\<forall>T b m.
        totalSupply genesis0 = Fin (of_int T) \<and> getBalance genesis0 (address v) = Fin (of_int b)
        \<and> miningReward genesis0 = Fin (of_int m)
        \<and> \<bar>T + m\<bar> < 2 ^ 53 \<and> \<bar>b + m\<bar> < 2 ^ 53
        \<longrightarrow> totalSupply s' = Fin (of_int (T + m))
            \<and> getBalance s' (address v) = Fin (of_int (b + m))
            \<and> (0 \<le> m \<longrightarrow> (\<forall>x. fle (getBalance genesis0 x) (getBalance s' x)))"
    by blast
  from sel have v: "v = Validator_new ''validator1'' (Fin 1000000)"
    by (auto simp: genesis0_select)
  have av: "address v = ''validator1''" by (simp add: v Validator_new_def)
  from ex [rule_format, of 2400000 1000000 100]
  have "totalSupply s' = Fin 2400100" "getBalance s' ''validator1'' = Fin 1000100"
    by (simp_all add: av genesis0_fields genesis0_balances)
  moreover from other have "getBalance s' ''validator2'' = Fin 800000"
    by (simp add: av genesis0_balances)
  moreover from mono have "\<forall>x. fle (getBalance genesis0 x) (getBalance s' x)"
    by (simp add: av genesis0_fields genesis0_balances isDouble_def)
  ultimately show ?thesis
    using run f by (simp add: av genesis0_fields)
qed

text \<open>
  The claim as first stated fails by rounding: after an unsigned transaction without
  origin of amount \<open>2 ^ 60\<close> and one block, a second block on the empty pool contains
  the reward of 100 and leaves the total supply and the validator's balance as they were.
\<close>

theorem mine_empty_pool_absorbed_counterexample:
  "reachable demo_runtime inflated
   \<and> pendingTransactions inflated = [] \<and> miningReward inflated = Fin 100
   \<and> activeValidators inflated \<noteq> []
   \<and> fst (minePendingTransactions demo_runtime (Fin 0) (Fin 4) (Fin 5) inflated)
       = Inr (Block_new demo_runtime 2
           [Transaction_new demo_runtime None ''validator1'' (Fin 100) (Fin 0) (Fin 4)]
           (blockHash (last (chain inflated))) ''validator1'' (Fin 5))
   \<and> totalSupply (snd (minePendingTransactions demo_runtime (Fin 0) (Fin 4) (Fin 5) inflated))
       = totalSupply inflated
   \<and> getBalance (snd (minePendingTransactions demo_runtime (Fin 0) (Fin 4) (Fin 5) inflated))
         ''validator1''
       = getBalance inflated ''validator1''"
proof -
  have len: "length (chain inflated) = 2"
    by (simp add: inflated_def createTransaction_def mint_valid
        mine_success [OF genesis0_pending_select] genesis0_fields)
  have act: "activeValidators inflated \<noteq> []"
    by (simp add: activeValidators_def inflated_state genesis0_validators mutate_def
        Validator_new_def)
  show ?thesis
    by (simp add: reachable_inflated act len
        mine_success [OF inflated_select inflated_state(2)] inflated_state
        isTransactionValid_def settle_reward_balance settle_totalSupply Validator_new_def
        big_rnd [simplified])
qed

text \<open>
  Claim C7. When exactly one validator is active with a positive stake,
  \<open>selectValidator\<close> returns it for every value of the random draw, through the loop
  or through the fall-back after it.
\<close>

theorem selectValidator_single_active:
  assumes "activeValidators s = [e]"
  shows "selectValidator r s = Inr e"
  using assms by (simp add: selectValidator_def Let_def)

theorem selectValidator_single_active_witness:
  "selectValidator (Fin (1 / 2)) validator1_only
     = Inr (''validator1'', Validator_new ''validator1'' (Fin 1000000))"
  using selectValidator_single_active
    [of validator1_only "(''validator1'', Validator_new ''validator1'' (Fin 1000000))"
      "Fin (1 / 2)"]
  by (simp add: activeValidators_def validator1_only_validators Validator_new_def)

text \<open>
  Claim C8. \<open>createTransaction\<close> throws the invalid-transaction error exactly when the
  transaction has an origin and no signature; in every other case it appends the
  transaction to the pending pool and changes nothing else. No balance is read: the
  result is the same whatever \<open>balances\<close> holds.
\<close>

theorem createTransaction_authorization:
  "createTransaction tx s =
     (if fromAddress tx \<noteq> None \<and> signature tx = None then (Inl UnauthorizedTransaction, s)
      else (Inr (), s\<lparr>pendingTransactions := pendingTransactions s @ [tx]\<rparr>))"
  by (simp add: createTransaction_def isValid_def)

theorem createTransaction_authorization_witness:
  "flt (getBalance genesis0 ''validator2'') (fadd (amount overdraft) (fee overdraft))
   \<and> createTransaction overdraft genesis0
       = (Inr (), genesis0\<lparr>pendingTransactions := [overdraft]\<rparr>)
   \<and> createTransaction
         (Transaction_new demo_runtime (Some ''validator2'') ''bob'' (Fin 5) (Fin 1) (Fin 1))
         genesis0
       = (Inl UnauthorizedTransaction, genesis0)"
  using createTransaction_authorization [of overdraft genesis0]
    createTransaction_authorization
      [of "Transaction_new demo_runtime (Some ''validator2'') ''bob'' (Fin 5) (Fin 1) (Fin 1)"
        genesis0]
  by (simp add: overdraft_def signTransaction_def Transaction_new_def genesis0_balances
      genesis0_fields)

text \<open>
  Claim C9, as amended. With a negative amount and a known validator, \<open>delegate\<close>
  returns without an error whenever the delegator's balance is not below the amount, as
  every balance that is not negative is, and runs in reverse: the balance becomes its
  difference with the amount, the validator's stake and the delegator's staking entry
  their sums with it, each rounded to a double. When these values are integers and the
  results are below \<open>2 ^ 53\<close> in magnitude, the balance has grown by exactly the
  absolute amount and stake and entry have shrunk by it (the entry may become
  negative, as in the run below).
\<close>

theorem delegate_negative_amount:
  assumes "flt a (Fin 0)" "map_of (validators s) va = Some v"
    and "fle (Fin 0) (getBalance s d) \<or> \<not> flt (getBalance s d) a"
  shows "\<exists>s'. delegate d va a s = (Inr (), s')
           \<and> getBalance s' d = orZero (fsub (getBalance s d) a)
           \<and> map_of (validators s') va = Some (v\<lparr>stake := fadd (stake v) a\<rparr>)
           \<and> getStakingInfo s' d va
               = Some (fadd (case getStakingInfo s d va of None \<Rightarrow> Fin 0
                             | Some c \<Rightarrow> orZero c) a)
           \<and> (\<forall>e k b n.
                 (case getStakingInfo s d va of None \<Rightarrow> Fin 0 | Some c \<Rightarrow> orZero c)
                   = Fin (of_int e)
                 \<and> stake v = Fin (of_int k) \<and> getBalance s d = Fin (of_int b)
                 \<and> a = Fin (of_int n)
                 \<and> \<bar>e + n\<bar> < 2 ^ 53 \<and> \<bar>k + n\<bar> < 2 ^ 53 \<and> \<bar>b - n\<bar> < 2 ^ 53
                 \<longrightarrow> getBalance s' d = Fin (of_int (b + (- n)))
                     \<and> map_of (validators s') va = Some (v\<lparr>stake := Fin (of_int (k - (- n)))\<rparr>)
                     \<and> getStakingInfo s' d va = Some (Fin (of_int (e - (- n)))))"
proof -
  from assms(1,3) have nb: "\<not> flt (getBalance s d) a"
    using negative_not_above_nonnegative by blast
  from delegate_success [OF assms(2) nb] obtain s' where s': "delegate d va a s = (Inr (), s')"
    and r: "getBalance s' d = orZero (fsub (getBalance s d) a)"
      "getStakingInfo s' d va
         = Some (fadd (case getStakingInfo s d va of None \<Rightarrow> Fin 0 | Some c \<Rightarrow> orZero c) a)"
      "map_of (validators s') va = Some (v\<lparr>stake := fadd (stake v) a\<rparr>)"
    by blast
  note exact = delegate_success_exact [OF assms(2) nb, unfolded s' snd_conv]
  have e: "b + (- n) = b - n" "k - (- n) = k + n" "e - (- n) = e + n" for b k e n :: int
    by simp_all
  show ?thesis
    apply (rule exI [of _ s'])
    apply (intro conjI)
        apply (rule s')
       apply (rule r)
      apply (rule r)
     apply (rule r)
    apply (intro allI impI)
    apply (elim conjE)
    apply (simp only: e)
    apply (intro conjI)
      apply (rule exact; assumption)
     apply (rule exact; assumption)
    apply (rule exact; assumption)
    done
qed

theorem delegate_negative_amount_witness:
  "\<exists>s'. delegate ''alice'' ''validator2'' (Fin (- 800000)) genesis0 = (Inr (), s')
     \<and> getBalance genesis0 ''alice'' = Fin 0
     \<and> getBalance s' ''alice'' = Fin 800000
     \<and> map_of (validators s') ''validator2''
         = Some ((Validator_new ''validator2'' (Fin 800000))\<lparr>stake := Fin 0\<rparr>)
     \<and> getStakingInfo s' ''alice'' ''validator2'' = Some (Fin (- 800000))"
proof -
  have p: "flt (Fin (- 800000)) (Fin 0)"
    "map_of (validators genesis0) ''validator2'' = Some (Validator_new ''validator2'' (Fin 800000))"
    "fle (Fin 0) (getBalance genesis0 ''alice'')
       \<or> \<not> flt (getBalance genesis0 ''alice'') (Fin (- 800000))"
    by (simp_all add: genesis0_validators genesis0_balances)
  from delegate_negative_amount [OF p]
  obtain s' where s': "delegate ''alice'' ''validator2'' (Fin (- 800000)) genesis0 = (Inr (), s')"
    and ex: "\<forall>e k b n.
        (case getStakingInfo genesis0 ''alice'' ''validator2'' of None \<Rightarrow> Fin 0
         | Some c \<Rightarrow> orZero c) = Fin (of_int e)
        \<and> stake (Validator_new ''validator2'' (Fin 800000)) = Fin (of_int k)
        \<and> getBalance genesis0 ''alice'' = Fin (of_int b) \<and> Fin (- 800000) = Fin (of_int n)
        \<and> \<bar>e + n\<bar> < 2 ^ 53 \<and> \<bar>k + n\<bar> < 2 ^ 53 \<and> \<bar>b - n\<bar> < 2 ^ 53
        \<longrightarrow> getBalance s' ''alice'' = Fin (of_int (b + (- n)))
            \<and> map_of (validators s') ''validator2''
                = Some ((Validator_new ''validator2'' (Fin 800000))\<lparr>stake := Fin (of_int (k - (- n)))\<rparr>)
            \<and> getStakingInfo s' ''alice'' ''validator2'' = Some (Fin (of_int (e - (- n))))"
    by blast
  from ex [rule_format, of 0 800000 0 "- 800000"]
  have "getBalance s' ''alice'' = Fin 800000
     \<and> map_of (validators s') ''validator2''
         = Some ((Validator_new ''validator2'' (Fin 800000))\<lparr>stake := Fin 0\<rparr>)
     \<and> getStakingInfo s' ''alice'' ''validator2'' = Some (Fin (- 800000))"
    by (simp add: getStakingInfo_def genesis0_fields genesis0_balances Validator_new_def)
  with s' show ?thesis by (simp add: genesis0_balances)
qed

text \<open>
  The claim as first stated fails on a negative balance: in the state after the two
  transfers of 800000 from \<open>validator2\<close> and one block, which the operations of the
  class reach from the constructor, the balance of \<open>validator2\<close>
  is - 800000 and delegating - 1 from it to \<open>validator1\<close> throws the
  insufficient-balance error.
\<close>

theorem delegate_negative_overdrawn_counterexample:
  "reachable demo_runtime overdrawn
   \<and> map_of (validators overdrawn) ''validator1'' \<noteq> None
   \<and> flt (Fin (- 1)) (Fin 0)
   \<and> getBalance overdrawn ''validator2'' = Fin (- 800000)
   \<and> delegate ''validator2'' ''validator1'' (Fin (- 1)) overdrawn
       = (Inl InsufficientBalance, overdrawn)"
  by (simp add: reachable_overdrawn delegate_def overdrawn_state map_of_mutate
      genesis0_validators)



end
